theory Spec2Isabelle
  imports Complex_Main "HOL-Library.Multiset"
begin

section \<open>The multipath fading channel of hermespy\<close>

text \<open>
  The development embeds \<^verbatim>\<open>hermespy/channel/multipath_fading_channel.py\<close>
  (class \<^verbatim>\<open>MultipathFadingChannel\<close>). Double precision numbers are idealised
  as real numbers: rounding is not modelled. The one non-finite value the class treats
  specially, a Rice factor of plus infinity, is a constructor of its own; other
  non-finite numbers (not-a-number, an infinite delay or power, the quotients numpy
  forms at a sampling rate of zero) have no counterpart. Exceptions are values of
  the type \<open>error\<close>, and every operation that can raise returns a sum.
\<close>

subsection \<open>Errors and numbers\<close>

datatype error = ValueError | TypeError | IndexError | ZeroDivisionError | AttributeError

text \<open>A Rice factor as numpy stores it: a finite number or \<^verbatim>\<open>inf\<close>.\<close>

datatype rice_factor = Fin real | PosInf

text \<open>\<^verbatim>\<open>rice_factors < 0.0\<close>, elementwise.\<close>

definition rice_negative :: "rice_factor \<Rightarrow> bool" where
  "rice_negative k = (case k of Fin x \<Rightarrow> x < 0 | PosInf \<Rightarrow> False)"

text \<open>
  \<^verbatim>\<open>np.argsort\<close>: the indices that sort the values. numpy does not fix the order
  of equal values; here they keep the order of the input.
\<close>

definition argsort :: "real list \<Rightarrow> nat list" where
  "argsort xs = sort_key (\<lambda>i. xs ! i) [0..<length xs]"

text \<open>\<^verbatim>\<open>a[sorting]\<close>: selection by an index array.\<close>

definition take_indices :: "'a list \<Rightarrow> nat list \<Rightarrow> 'a list" where
  "take_indices xs idx = map (\<lambda>i. xs ! i) idx"

subsection \<open>The channel object\<close>

text \<open>
  The superclass \<^verbatim>\<open>Channel\<close> is not among the available sources. The attributes
  of it that the class reads are the fields of \<open>channel_base\<close>; the state the
  superclass constructor leaves behind is a parameter of the constructor below.
\<close>

record channel_base =
  active :: bool
  gain :: real
  num_tx_antennas :: nat
  num_rx_antennas :: nat
  impulse_response_interpolation :: bool
  sync_offset_low :: real
  sync_offset_high :: real
  transmit_precoding :: "complex list list option"
  receive_postcoding :: "complex list list option"

record channel =
  base :: channel_base
  delays :: "real list"
  power_profile :: "real list"
  rice_factors :: "rice_factor list"
  max_delay :: real
  num_resolvable_paths :: nat
  num_sinusoids :: int
  los_angle :: "real option"
  los_gains :: "real list"
  non_los_gains :: "real list"
  doppler_frequency :: real
  private_los_doppler_frequency :: "real option"
  interpolate_signals :: "bool option"

text \<open>
  Lines 203 to 213: the gains of one path. The mask \<^verbatim>\<open>np.isposinf\<close> selects the
  first case, its complement the second.
\<close>

definition los_gain_of :: "rice_factor \<Rightarrow> real" where
  "los_gain_of k = (case k of PosInf \<Rightarrow> 1 | Fin x \<Rightarrow> sqrt (x / (1 + x)))"

definition non_los_gain_of :: "rice_factor \<Rightarrow> real" where
  "non_los_gain_of k = (case k of PosInf \<Rightarrow> 0 | Fin x \<Rightarrow> 1 / sqrt (1 + x))"

text \<open>
  The checks of lines 163 to 179, in their order. The three sequences are
  one-dimensional lists, so the dimension check of line 163 always passes.
\<close>

definition validate_paths :: "real list \<Rightarrow> real list \<Rightarrow> rice_factor list \<Rightarrow> error option" where
  "validate_paths ds pp rf =
    (if length ds \<noteq> length pp \<or> length pp \<noteq> length rf then Some ValueError
     else if length ds < 1 then Some ValueError
     else if list_ex (\<lambda>d. d < 0) ds then Some ValueError
     else if list_ex (\<lambda>p. p < 0) pp then Some ValueError
     else if list_ex rice_negative rf then Some ValueError
     else None)"

text \<open>
  \<^verbatim>\<open>MultipathFadingChannel.__init__\<close>. \<open>b\<close> is the state set up by
  \<^verbatim>\<open>Channel.__init__(self, **kwargs)\<close>, which runs after the checks.
\<close>

definition init ::
  "channel_base \<Rightarrow> real list \<Rightarrow> real list \<Rightarrow> rice_factor list \<Rightarrow> int option \<Rightarrow>
   real option \<Rightarrow> real option \<Rightarrow> real option \<Rightarrow> bool option \<Rightarrow> error + channel" where
  "init b ds pp rf num_sin los_ang doppler los_doppler interp =
    (case validate_paths ds pp rf of
       Some e \<Rightarrow> Inl e
     | None \<Rightarrow>
       let sorting = argsort ds;
           ds' = take_indices ds sorting;
           pp' = take_indices pp sorting;
           rf' = take_indices rf sorting
       in Inr \<lparr> base = b,
                delays = ds',
                power_profile = pp',
                rice_factors = rf',
                max_delay = Max (set ds'),
                num_resolvable_paths = length ds',
                num_sinusoids = (case num_sin of None \<Rightarrow> 20 | Some n \<Rightarrow> n),
                los_angle = los_ang,
                los_gains = map los_gain_of rf',
                non_los_gains = map non_los_gain_of rf',
                doppler_frequency = (case doppler of None \<Rightarrow> 0 | Some f \<Rightarrow> f),
                private_los_doppler_frequency = los_doppler,
                interpolate_signals = interp \<rparr>)"

text \<open>The property \<^verbatim>\<open>los_doppler_frequency\<close> (lines 265 to 276).\<close>

definition los_doppler_frequency :: "channel \<Rightarrow> real" where
  "los_doppler_frequency ch =
    (case private_los_doppler_frequency ch of None \<Rightarrow> doppler_frequency ch | Some f \<Rightarrow> f)"

text \<open>The setter of \<^verbatim>\<open>num_sinusoids\<close> (lines 318 to 332).\<close>

definition set_num_sinusoids :: "int \<Rightarrow> channel \<Rightarrow> error + channel" where
  "set_num_sinusoids num ch =
    (if num < 0 then Inl ValueError else Inr (ch\<lparr>num_sinusoids := num\<rparr>))"

subsection \<open>The random stream\<close>

text \<open>
  The generator \<^verbatim>\<open>self._rng\<close> belongs to the superclass. Its state is the
  sequence of the unit-interval numbers it has still to deliver; a draw consumes the
  front of the sequence.
\<close>

type_synonym rng = "nat \<Rightarrow> real"

text \<open>\<^verbatim>\<open>rng.uniform(low, high)\<close>: one number.\<close>

definition uniform :: "real \<Rightarrow> real \<Rightarrow> rng \<Rightarrow> real \<times> rng" where
  "uniform low high g = (low + (high - low) * g 0, \<lambda>i. g (Suc i))"

text \<open>\<^verbatim>\<open>rng.uniform(low, high, n)\<close>: an array of \<open>n\<close> numbers.\<close>

definition uniform_n :: "real \<Rightarrow> real \<Rightarrow> nat \<Rightarrow> rng \<Rightarrow> real list \<times> rng" where
  "uniform_n low high n g = (map (\<lambda>i. low + (high - low) * g i) [0..<n], \<lambda>i. g (i + n))"

subsection \<open>Tap generation\<close>

text \<open>Elementwise sum of two sequences of one length.\<close>

definition add_seq :: "complex list \<Rightarrow> complex list \<Rightarrow> complex list" where
  "add_seq a b = map2 (\<lambda>x y. x + y) a b"

text \<open>The summand of lines 414 and 415 for the sinusoid \<open>s\<close>.\<close>

definition nlos_term :: "channel \<Rightarrow> real list \<Rightarrow> real list \<Rightarrow> real list \<Rightarrow> nat \<Rightarrow> complex list" where
  "nlos_term ch timestamps nlos_angles nlos_phases s =
    map (\<lambda>t. exp (\<i> * complex_of_real
           (doppler_frequency ch * t *
              cos ((2 * pi * real s + nlos_angles ! s) / real_of_int (num_sinusoids ch))
            + nlos_phases ! s)))
        timestamps"

text \<open>
  \<^verbatim>\<open>MultipathFadingChannel.__tap\<close>. A negative size makes \<^verbatim>\<open>rng.uniform\<close>
  raise \<^verbatim>\<open>ValueError\<close> (line 408); \<^verbatim>\<open>0 ** -.5\<close> raises
  \<^verbatim>\<open>ZeroDivisionError\<close> (line 417), after the two arrays were drawn and the
  loop of line 412 ran over the empty range.
\<close>

definition tap :: "channel \<Rightarrow> real list \<Rightarrow> real \<Rightarrow> real \<Rightarrow> rng \<Rightarrow> error + (complex list \<times> rng)" where
  "tap ch timestamps los_gain nlos_gain g =
    (if num_sinusoids ch < 0 then Inl ValueError
     else
       let n = nat (num_sinusoids ch);
           (nlos_angles, g1) = uniform_n 0 (2 * pi) n g;
           (nlos_phases, g2) = uniform_n 0 (2 * pi) n g1;
           nlos_sum = fold (\<lambda>s acc. add_seq acc (nlos_term ch timestamps nlos_angles nlos_phases s))
                        [0..<n] (replicate (length timestamps) 0)
       in if num_sinusoids ch = 0 then Inl ZeroDivisionError
          else
            let nlos_component =
                  map (\<lambda>z. z * complex_of_real (nlos_gain * real_of_int (num_sinusoids ch) powr (- 1 / 2)))
                      nlos_sum;
                (los_ang, g3) = (case los_angle ch of Some a \<Rightarrow> (a, g2) | None \<Rightarrow> uniform 0 (2 * pi) g2);
                los_doppler = los_doppler_frequency ch;
                (los_phase, g4) = uniform 0 (2 * pi) g3;
                los_component =
                  map (\<lambda>t. complex_of_real los_gain *
                             exp (\<i> * complex_of_real (los_doppler * t * cos los_ang + los_phase)))
                      timestamps
            in Inr (add_seq los_component nlos_component, g4))"

subsection \<open>The impulse response tensor\<close>

text \<open>
  A four-dimensional numpy array: its shape and its entries. Entries outside the shape
  are never read.
\<close>

record tensor =
  dim_samples :: nat
  dim_rx :: nat
  dim_tx :: nat
  dim_taps :: nat
  entry :: "nat \<Rightarrow> nat \<Rightarrow> nat \<Rightarrow> nat \<Rightarrow> complex"

text \<open>\<^verbatim>\<open>int(x)\<close> on a float: truncation towards zero.\<close>

definition py_int :: "real \<Rightarrow> int" where
  "py_int x = (if 0 \<le> x then \<lfloor>x\<rfloor> else \<lceil>x\<rceil>)"

text \<open>\<^verbatim>\<open>np.zeros\<close>: a negative dimension raises \<^verbatim>\<open>ValueError\<close>.\<close>

definition zeros :: "nat \<Rightarrow> nat \<Rightarrow> nat \<Rightarrow> int \<Rightarrow> error + tensor" where
  "zeros n r t d =
    (if d < 0 then Inl ValueError
     else Inr \<lparr> dim_samples = n, dim_rx = r, dim_tx = t, dim_taps = nat d,
                entry = (\<lambda>k i j c. 0) \<rparr>)"

text \<open>An integer index into an axis of length \<open>n\<close>; negative indices count from the end.\<close>

definition np_index :: "nat \<Rightarrow> int \<Rightarrow> error + nat" where
  "np_index n i =
    (if 0 \<le> i \<and> i < int n then Inr (nat i)
     else if - int n \<le> i \<and> i < 0 then Inr (nat (i + int n))
     else Inl IndexError)"

text \<open>
  \<^verbatim>\<open>impulse_response[:, rx_idx, tx_idx, delay_idx] += signal_weights\<close> (line 380).
  The indices are checked first; a sequence of another length than the first axis
  does not broadcast.
\<close>

definition add_tap_column :: "tensor \<Rightarrow> nat \<Rightarrow> nat \<Rightarrow> int \<Rightarrow> complex list \<Rightarrow> error + tensor" where
  "add_tap_column T rx_idx tx_idx delay_idx w =
    (if dim_rx T \<le> rx_idx \<or> dim_tx T \<le> tx_idx then Inl IndexError
     else case np_index (dim_taps T) delay_idx of
       Inl e \<Rightarrow> Inl e
     | Inr c \<Rightarrow>
         if length w \<noteq> dim_samples T then Inl ValueError
         else Inr (T\<lparr>entry := (\<lambda>k i j d.
                 if k < dim_samples T \<and> i = rx_idx \<and> j = tx_idx \<and> d = c
                 then entry T k i j d + w ! k else entry T k i j d)\<rparr>))"

text \<open>
  \<^verbatim>\<open>impulse_response[:, rx_idx, tx_idx, :] += np.outer(signal_weights, row)\<close>
  (lines 375 and 376).
\<close>

definition add_outer :: "tensor \<Rightarrow> nat \<Rightarrow> nat \<Rightarrow> complex list \<Rightarrow> real list \<Rightarrow> error + tensor" where
  "add_outer T rx_idx tx_idx w row =
    (if dim_rx T \<le> rx_idx \<or> dim_tx T \<le> tx_idx then Inl IndexError
     else if length w \<noteq> dim_samples T \<or> length row \<noteq> dim_taps T then Inl ValueError
     else Inr (T\<lparr>entry := (\<lambda>k i j d.
             if k < dim_samples T \<and> i = rx_idx \<and> j = tx_idx \<and> d < dim_taps T
             then entry T k i j d + w ! k * complex_of_real (row ! d) else entry T k i j d)\<rparr>))"

text \<open>\<^verbatim>\<open>self.gain * impulse_response\<close> (line 382).\<close>

definition scale_tensor :: "real \<Rightarrow> tensor \<Rightarrow> tensor" where
  "scale_tensor a T = T\<lparr>entry := (\<lambda>k i j d. complex_of_real a * entry T k i j d)\<rparr>"

subsection \<open>The interpolation filter\<close>

text \<open>
  \<^verbatim>\<open>delay_resampling_matrix\<close> lives in \<^verbatim>\<open>hermespy/tools/resampling.py\<close>, which
  is not among the available sources: it is a parameter \<open>drm\<close>, called with the
  sampling rate, the number of input samples, the delay and the number of output
  samples, and returning the rows of a matrix.
\<close>

type_synonym resampler = "real \<Rightarrow> nat \<Rightarrow> real \<Rightarrow> int \<Rightarrow> real list list"

text \<open>\<^verbatim>\<open>np.linalg.norm\<close> of a matrix: the Frobenius norm.\<close>

definition frobenius :: "real list list \<Rightarrow> real" where
  "frobenius M = sqrt (sum_list (map (\<lambda>x. x * x) (concat M)))"

text \<open>
  One row of the filter (line 465): the first column of the resampling matrix over
  the norm. The column must have the length of the row it is assigned to. (A matrix of
  norm zero makes numpy store non-finite numbers, which have no counterpart here.)
\<close>

definition filter_row :: "resampler \<Rightarrow> real \<Rightarrow> int \<Rightarrow> real \<Rightarrow> error + real list" where
  "filter_row drm sampling_rate num_out delay =
    (let resampling_matrix = drm sampling_rate 1 delay num_out
     in if list_ex (\<lambda>row. row = []) resampling_matrix then Inl IndexError
        else if int (length resampling_matrix) \<noteq> num_out then Inl ValueError
        else Inr (map (\<lambda>row. hd row / frobenius resampling_matrix) resampling_matrix))"

text \<open>A loop over a list whose body may raise: the first error ends it.\<close>

fun collect :: "('a \<Rightarrow> error + 'b) \<Rightarrow> 'a list \<Rightarrow> error + 'b list" where
  "collect f [] = Inr []"
| "collect f (x # xs) =
    (case f x of
       Inl e \<Rightarrow> Inl e
     | Inr y \<Rightarrow> (case collect f xs of Inl e \<Rightarrow> Inl e | Inr ys \<Rightarrow> Inr (y # ys)))"

text \<open>\<^verbatim>\<open>MultipathFadingChannel.interpolation_filter\<close>.\<close>

definition interpolation_filter :: "resampler \<Rightarrow> channel \<Rightarrow> real \<Rightarrow> error + real list list" where
  "interpolation_filter drm ch sampling_rate =
    (if delays ch = [] then Inl IndexError
     else
       let num_delay_samples = py_int (last (delays ch) * sampling_rate)
       in if num_delay_samples + 1 < 0 then Inl ValueError
          else collect (filter_row drm sampling_rate (num_delay_samples + 1)) (delays ch))"

subsection \<open>Impulse response synthesis\<close>

text \<open>A \<^verbatim>\<open>for\<close> loop that threads a state and stops at the first exception.\<close>

fun for_each :: "('a \<Rightarrow> 's \<Rightarrow> error + 's) \<Rightarrow> 'a list \<Rightarrow> 's \<Rightarrow> error + 's" where
  "for_each body [] s = Inr s"
| "for_each body (x # xs) s =
    (case body x s of Inl e \<Rightarrow> Inl e | Inr s' \<Rightarrow> for_each body xs s')"

text \<open>
  The deposit of lines 374 to 380, by the policy in force. An index past the end of
  a Python sequence raises \<^verbatim>\<open>IndexError\<close>.
\<close>

definition deposit ::
  "channel \<Rightarrow> real \<Rightarrow> real list list option \<Rightarrow> nat \<Rightarrow> nat \<Rightarrow> nat \<Rightarrow> complex list \<Rightarrow> tensor
   \<Rightarrow> error + tensor" where
  "deposit ch sampling_rate interpolation_filt path_idx rx_idx tx_idx signal_weights T =
    (case interpolation_filt of
       Some F \<Rightarrow>
         if length F \<le> path_idx then Inl IndexError
         else add_outer T rx_idx tx_idx signal_weights (F ! path_idx)
     | None \<Rightarrow>
         if length (delays ch) \<le> path_idx then Inl IndexError
         else add_tap_column T rx_idx tx_idx (py_int (delays ch ! path_idx * sampling_rate))
                signal_weights)"

text \<open>
  The body of the inner loop (lines 372 to 380). The power of a path is not negative,
  so \<^verbatim>\<open>power ** .5\<close> is its square root (\<open>path_power\<close> is the
  source's \<^verbatim>\<open>power\<close>).
\<close>

definition antenna_step ::
  "channel \<Rightarrow> real list \<Rightarrow> real \<Rightarrow> real list list option \<Rightarrow> real \<times> nat \<times> real \<times> real \<Rightarrow>
   nat \<times> nat \<Rightarrow> tensor \<times> rng \<Rightarrow> error + (tensor \<times> rng)" where
  "antenna_step ch timestamps sampling_rate interpolation_filt path pair state =
    (case path of (path_power, path_idx, los_gain, nlos_gain) \<Rightarrow>
     case pair of (rx_idx, tx_idx) \<Rightarrow>
     case state of (T, g) \<Rightarrow>
       (case tap ch timestamps los_gain nlos_gain g of
          Inl e \<Rightarrow> Inl e
        | Inr (t, g') \<Rightarrow>
            let signal_weights = map (\<lambda>z. complex_of_real (sqrt path_power) * z) t
            in (case deposit ch sampling_rate interpolation_filt path_idx rx_idx tx_idx
                       signal_weights T of
                  Inl e \<Rightarrow> Inl e
                | Inr T' \<Rightarrow> Inr (T', g'))))"

text \<open>
  The body of the outer loop: line 371 runs \<^verbatim>\<open>rx_idx\<close> over the transmitter's
  antennas and \<^verbatim>\<open>tx_idx\<close> over the receiver's.
\<close>

definition path_step ::
  "channel \<Rightarrow> real list \<Rightarrow> real \<Rightarrow> real list list option \<Rightarrow> real \<times> nat \<times> real \<times> real \<Rightarrow>
   tensor \<times> rng \<Rightarrow> error + (tensor \<times> rng)" where
  "path_step ch timestamps sampling_rate interpolation_filt path state =
    for_each (antenna_step ch timestamps sampling_rate interpolation_filt path)
      (List.product [0..<num_tx_antennas (base ch)] [0..<num_rx_antennas (base ch)]) state"

text \<open>The tensor before the gain is applied (lines 356 to 380).\<close>

definition synthesize :: "resampler \<Rightarrow> channel \<Rightarrow> nat \<Rightarrow> real \<Rightarrow> rng \<Rightarrow> error + (tensor \<times> rng)" where
  "synthesize drm ch num_samples sampling_rate g =
    (if delays ch = [] then Inl IndexError
     else
       let max_delay_in_samples = py_int (last (delays ch) * sampling_rate);
           timestamps = map (\<lambda>n. real n / sampling_rate) [0..<num_samples]
       in case zeros num_samples (num_rx_antennas (base ch)) (num_tx_antennas (base ch))
                 (max_delay_in_samples + 1) of
            Inl e \<Rightarrow> Inl e
          | Inr Z \<Rightarrow>
              (case (if impulse_response_interpolation (base ch)
                     then map_sum id Some (interpolation_filter drm ch sampling_rate)
                     else Inr None) of
                 Inl e \<Rightarrow> Inl e
               | Inr interpolation_filt \<Rightarrow>
                   for_each (path_step ch timestamps sampling_rate interpolation_filt)
                     (zip (power_profile ch)
                        (zip [0..<num_resolvable_paths ch]
                           (zip (los_gains ch) (non_los_gains ch))))
                     (Z, g)))"

text \<open>\<^verbatim>\<open>MultipathFadingChannel.impulse_response\<close>.\<close>

definition impulse_response ::
  "resampler \<Rightarrow> channel \<Rightarrow> nat \<Rightarrow> real \<Rightarrow> rng \<Rightarrow> error + (tensor \<times> rng)" where
  "impulse_response drm ch num_samples sampling_rate g =
    (case synthesize drm ch num_samples sampling_rate g of
       Inl e \<Rightarrow> Inl e
     | Inr (H, g') \<Rightarrow> Inr (scale_tensor (gain (base ch)) H, g'))"

subsection \<open>The nearest-sample policy in the words of the specification\<close>

text \<open>
  Sections 4.2 and 4.3 of the specification describe the tensor of the nearest-sample
  policy: for each path, in ascending order of delay, and for each pair of a receive
  and a transmit antenna, one gain sequence is generated, scaled by the square root of
  the power of the path, and deposited entirely into the delay tap
  \<open>floor (delay * sampling_rate)\<close>; the whole is multiplied by the channel gain. The
  definitions of this subsection say that, for comparison with the synthesis above.
  A deposit job is a path (power, index, line-of-sight gain, other gain) with an
  antenna pair (receive index, transmit index).
\<close>

type_synonym deposit_job = "(real \<times> nat \<times> real \<times> real) \<times> nat \<times> nat"

definition deposit_jobs :: "channel \<Rightarrow> deposit_job list" where
  "deposit_jobs ch =
    List.product
      (zip (power_profile ch)
         (zip [0..<num_resolvable_paths ch] (zip (los_gains ch) (non_los_gains ch))))
      (List.product [0..<num_rx_antennas (base ch)] [0..<num_tx_antennas (base ch)])"

text \<open>The two gains a job hands to the tap generator.\<close>

definition job_gains :: "deposit_job \<Rightarrow> real \<times> real" where
  "job_gains job =
    (case job of ((path_power, path_idx, los_gain, nlos_gain), pair) \<Rightarrow> (los_gain, nlos_gain))"

text \<open>
  The gain sequences that successive tap generations deliver on one random stream, one
  for each pair of gains, each generation starting where the one before left the stream.
\<close>

fun gain_sequences :: "channel \<Rightarrow> real list \<Rightarrow> (real \<times> real) list \<Rightarrow> rng \<Rightarrow> complex list list" where
  "gain_sequences ch timestamps [] g = []"
| "gain_sequences ch timestamps (gains # rest) g =
    (case tap ch timestamps (fst gains) (snd gains) g of
       Inl e \<Rightarrow> []
     | Inr (t, g') \<Rightarrow> t # gain_sequences ch timestamps rest g')"

text \<open>
  What one job with its gain sequence \<open>t\<close> contributes to the entry
  \<open>[k, i, j, d]\<close>: the scaled sample \<open>k\<close> at its own antenna pair and at the tap
  \<open>floor (delay * sampling_rate)\<close>, nothing anywhere else.
\<close>

definition tap_contribution ::
  "channel \<Rightarrow> real \<Rightarrow> nat \<Rightarrow> nat \<Rightarrow> nat \<Rightarrow> nat \<Rightarrow> nat \<Rightarrow> deposit_job \<times> complex list \<Rightarrow> complex" where
  "tap_contribution ch sampling_rate num_samples k i j d jt =
    (case jt of (((path_power, path_idx, los_gain, nlos_gain), (rx, tx)), t) \<Rightarrow>
       if k < num_samples \<and> i = rx \<and> j = tx \<and>
          d = nat \<lfloor>delays ch ! path_idx * sampling_rate\<rfloor>
       then complex_of_real (sqrt path_power) * t ! k
       else 0)"

text \<open>The entries of the tensor of the nearest-sample policy.\<close>

definition nearest_sample_response ::
  "channel \<Rightarrow> nat \<Rightarrow> real \<Rightarrow> rng \<Rightarrow> nat \<Rightarrow> nat \<Rightarrow> nat \<Rightarrow> nat \<Rightarrow> complex" where
  "nearest_sample_response ch num_samples sampling_rate g k i j d =
    complex_of_real (gain (base ch)) *
    sum_list (map (tap_contribution ch sampling_rate num_samples k i j d)
      (zip (deposit_jobs ch)
         (gain_sequences ch (map (\<lambda>n. real n / sampling_rate) [0..<num_samples])
            (map job_gains (deposit_jobs ch)) g)))"

subsection \<open>The recommended sampling rate\<close>

definition delay_resolution_error :: real where
  "delay_resolution_error = 4 / 10"

text \<open>\<^verbatim>\<open>np.diff\<close> of a vector.\<close>

definition diff :: "real list \<Rightarrow> real list" where
  "diff xs = map2 (\<lambda>a b. b - a) xs (tl xs)"

text \<open>
  \<^verbatim>\<open>MultipathFadingChannel.min_sampling_rate\<close>. \<^verbatim>\<open>np.min\<close> of an empty array
  raises \<^verbatim>\<open>ValueError\<close>; a numpy division by a zero gap yields \<^verbatim>\<open>inf\<close>, which
  line 442 turns into 0.
\<close>

definition min_sampling_rate :: "channel \<Rightarrow> error + real" where
  "min_sampling_rate ch =
    (if impulse_response_interpolation (base ch) then Inr 0
     else
       let gaps = diff (delays ch)
       in if gaps = [] then Inl ValueError
          else
            let smallest = Min (set gaps)
            in if smallest = 0 then Inr 0
               else Inr ((1 - delay_resolution_error) / smallest))"

subsection \<open>Serialisation\<close>

text \<open>
  The state dictionary handed to and received from the YAML library: a map from keys
  to values. The library's own writing and reading of the mapping node is taken to
  return the dictionary it was given.
\<close>

datatype yaml_value =
  YNone | YBool bool | YInt int | YFloat real | YList "real list" | YRiceList "rice_factor list"

type_synonym yaml_state = "string \<rightharpoonup> yaml_value"

text \<open>\<^verbatim>\<open>MultipathFadingChannel.to_yaml\<close>: the dictionary of lines 488 to 500.\<close>

definition to_yaml :: "channel \<Rightarrow> yaml_state" where
  "to_yaml node =
    [ ''delays'' \<mapsto> YList (delays node),
      ''power_profile'' \<mapsto> YList (power_profile node),
      ''active'' \<mapsto> YBool (active (base node)),
      ''gain'' \<mapsto> YFloat (gain (base node)),
      ''num_sinusoids'' \<mapsto> YInt (num_sinusoids node),
      ''los_angle'' \<mapsto> (case los_angle node of None \<Rightarrow> YNone | Some a \<Rightarrow> YFloat a),
      ''doppler_frequency'' \<mapsto> YFloat (doppler_frequency node),
      ''los_doppler_frequency'' \<mapsto> YFloat (los_doppler_frequency node),
      ''interpolate_signals'' \<mapsto>
          (case interpolate_signals node of None \<Rightarrow> YNone | Some v \<Rightarrow> YBool v),
      ''sync_offset_low'' \<mapsto> YFloat (sync_offset_low (base node)),
      ''sync_offset_high'' \<mapsto> YFloat (sync_offset_high (base node)) ]"

text \<open>\<^verbatim>\<open>10 ** (x / 10)\<close>: decibels to linear scale.\<close>

definition db_to_linear :: "real \<Rightarrow> real" where
  "db_to_linear x = 10 powr (x / 10)"

text \<open>
  Lines 530 to 532: the power profile is popped and, unless it is \<^verbatim>\<open>None\<close>, put
  back converted from decibels.
\<close>

definition restore_power_profile :: "yaml_state \<Rightarrow> yaml_state" where
  "restore_power_profile state =
    (case state ''power_profile'' of
       None \<Rightarrow> state
     | Some YNone \<Rightarrow> state(''power_profile'' := None)
     | Some (YBool v) \<Rightarrow> state(''power_profile'' \<mapsto> YFloat (db_to_linear (if v then 1 else 0)))
     | Some (YInt n) \<Rightarrow> state(''power_profile'' \<mapsto> YFloat (db_to_linear (real_of_int n)))
     | Some (YFloat x) \<Rightarrow> state(''power_profile'' \<mapsto> YFloat (db_to_linear x))
     | Some (YList xs) \<Rightarrow> state(''power_profile'' \<mapsto> YList (map db_to_linear xs))
     | Some (YRiceList ks) \<Rightarrow>
         state(''power_profile'' \<mapsto>
           YRiceList (map (\<lambda>k. case k of Fin x \<Rightarrow> Fin (db_to_linear x) | PosInf \<Rightarrow> PosInf) ks)))"

text \<open>Reading an optional keyword argument of the constructor from the dictionary.\<close>

definition opt_int :: "yaml_value option \<Rightarrow> error + int option" where
  "opt_int v =
    (case v of None \<Rightarrow> Inr None | Some YNone \<Rightarrow> Inr None | Some (YInt n) \<Rightarrow> Inr (Some n)
     | Some (YBool b) \<Rightarrow> Inr (Some (if b then 1 else 0)) | Some _ \<Rightarrow> Inl TypeError)"

definition opt_real :: "yaml_value option \<Rightarrow> error + real option" where
  "opt_real v =
    (case v of None \<Rightarrow> Inr None | Some YNone \<Rightarrow> Inr None | Some (YFloat x) \<Rightarrow> Inr (Some x)
     | Some (YInt n) \<Rightarrow> Inr (Some (real_of_int n))
     | Some (YBool b) \<Rightarrow> Inr (Some (if b then 1 else 0)) | Some _ \<Rightarrow> Inl TypeError)"

definition opt_bool :: "yaml_value option \<Rightarrow> error + bool option" where
  "opt_bool v =
    (case v of None \<Rightarrow> Inr None | Some YNone \<Rightarrow> Inr None | Some (YBool b) \<Rightarrow> Inr (Some b)
     | Some _ \<Rightarrow> Inl TypeError)"

text \<open>The dictionary without the keys the constructor names: its \<^verbatim>\<open>**kwargs\<close>.\<close>

definition remaining_kwargs :: "yaml_state \<Rightarrow> yaml_state" where
  "remaining_kwargs state =
    state |` (- {''delays'', ''power_profile'', ''rice_factors'', ''num_sinusoids'', ''los_angle'',
                 ''doppler_frequency'', ''los_doppler_frequency'', ''interpolate_signals''})"

text \<open>
  \<^verbatim>\<open>cls(**state)\<close> (line 534). Python binds the arguments first: a missing
  \<^verbatim>\<open>delays\<close>, \<^verbatim>\<open>power_profile\<close> or \<^verbatim>\<open>rice_factors\<close> raises
  \<^verbatim>\<open>TypeError\<close> before the body runs. A scalar in the place of one of the three
  vectors has no \<^verbatim>\<open>ndim\<close> (\<^verbatim>\<open>AttributeError\<close>, line 163). The superclass
  constructor \<open>channel_init\<close> is a parameter; it receives the remaining keys. A value
  of a kind the channel record cannot hold (a delay or power of infinity, a fractional
  number of sinusoids) is not modelled further and reported as \<^verbatim>\<open>TypeError\<close>.
\<close>

definition construct :: "(yaml_state \<Rightarrow> error + channel_base) \<Rightarrow> yaml_state \<Rightarrow> error + channel" where
  "construct channel_init state =
    (case (state ''delays'', state ''power_profile'', state ''rice_factors'') of
       (Some d, Some p, Some r) \<Rightarrow>
         (case (d, p, r) of
            (YList ds, YList pp, YRiceList rf) \<Rightarrow>
              (case (opt_int (state ''num_sinusoids''), opt_real (state ''los_angle''),
                     opt_real (state ''doppler_frequency''),
                     opt_real (state ''los_doppler_frequency''),
                     opt_bool (state ''interpolate_signals'')) of
                 (Inr ns, Inr la, Inr df, Inr ldf, Inr ip) \<Rightarrow>
                   (case validate_paths ds pp rf of
                      Some e \<Rightarrow> Inl e
                    | None \<Rightarrow>
                        (case channel_init (remaining_kwargs state) of
                           Inl e \<Rightarrow> Inl e
                         | Inr b \<Rightarrow> init b ds pp rf ns la df ldf ip))
               | _ \<Rightarrow> Inl TypeError)
          | (YList ds, YList pp, YList xs) \<Rightarrow>
              (case (opt_int (state ''num_sinusoids''), opt_real (state ''los_angle''),
                     opt_real (state ''doppler_frequency''),
                     opt_real (state ''los_doppler_frequency''),
                     opt_bool (state ''interpolate_signals'')) of
                 (Inr ns, Inr la, Inr df, Inr ldf, Inr ip) \<Rightarrow>
                   (case validate_paths ds pp (map Fin xs) of
                      Some e \<Rightarrow> Inl e
                    | None \<Rightarrow>
                        (case channel_init (remaining_kwargs state) of
                           Inl e \<Rightarrow> Inl e
                         | Inr b \<Rightarrow> init b ds pp (map Fin xs) ns la df ldf ip))
               | _ \<Rightarrow> Inl TypeError)
          | (YRiceList _, _, _) \<Rightarrow> Inl TypeError
          | (YList _, YRiceList _, _) \<Rightarrow> Inl TypeError
          | _ \<Rightarrow> Inl AttributeError)
     | _ \<Rightarrow> Inl TypeError)"

text \<open>\<^verbatim>\<open>MultipathFadingChannel.from_yaml\<close>.\<close>

definition from_yaml :: "(yaml_state \<Rightarrow> error + channel_base) \<Rightarrow> yaml_state \<Rightarrow> error + channel" where
  "from_yaml channel_init state = construct channel_init (restore_power_profile state)"

subsection \<open>Propagation\<close>

text \<open>
  Modelled from the spec: the antenna correlation stage of the superclass
  \<^verbatim>\<open>Channel\<close>, whose source is missing (section 4.4). With a receive matrix
  \<open>R\<close> and a transmit matrix \<open>T\<close> the correlated response at each time and delay is
  \<open>R \<cdot> H \<cdot> T\<^sup>t\<close>; an absent matrix is the identity; a matrix that is not square
  or does not match the antenna count is a validation failure. First, the entries of
  an optional matrix.
\<close>

definition matrix_entry :: "complex list list option \<Rightarrow> nat \<Rightarrow> nat \<Rightarrow> complex" where
  "matrix_entry M i j =
    (case M of None \<Rightarrow> (if i = j then 1 else 0) | Some rows \<Rightarrow> rows ! i ! j)"

text \<open>
  Modelled from the spec: a correlation matrix is square and matches the antenna count
  (section 4.4); part of the missing superclass.
\<close>

definition matrix_fits :: "complex list list option \<Rightarrow> nat \<Rightarrow> bool" where
  "matrix_fits M n =
    (case M of None \<Rightarrow> True
     | Some rows \<Rightarrow> length rows = n \<and> list_all (\<lambda>row. length row = n) rows)"

text \<open>
  Modelled from the spec: the correlated impulse response \<open>R \<cdot> H \<cdot> T\<^sup>t\<close> at each
  time and delay (section 4.4); part of the missing superclass.
\<close>

definition correlate :: "channel_base \<Rightarrow> tensor \<Rightarrow> error + tensor" where
  "correlate b H =
    (if matrix_fits (receive_postcoding b) (dim_rx H) \<and> matrix_fits (transmit_precoding b) (dim_tx H)
     then Inr (H\<lparr>entry := (\<lambda>k r t d.
            if r < dim_rx H \<and> t < dim_tx H
            then sum_list (map (\<lambda>r'. sum_list (map (\<lambda>t'.
                   matrix_entry (receive_postcoding b) r r' * entry H k r' t' d *
                   matrix_entry (transmit_precoding b) t t') [0..<dim_tx H])) [0..<dim_rx H])
            else entry H k r t d)\<rparr>)
     else Inl ValueError)"

text \<open>
  Modelled from the spec: the convolution inside the propagation operator of the
  superclass \<^verbatim>\<open>Channel\<close>, whose source is missing (section 4.5). The output has one
  waveform per receive antenna, of length \<open>input_length + num_delay_taps - 1\<close>; the
  sample at receive antenna \<open>r\<close> is the sum over the transmit antennas \<open>t\<close> of the
  convolution of the waveform of \<open>t\<close> with \<open>H[:, r, t, :]\<close>. The response at input
  time \<open>n\<close> acts on the input sample \<open>n\<close>, which arrives \<open>d\<close> samples later through
  tap \<open>d\<close>.
\<close>

definition convolve :: "tensor \<Rightarrow> complex list list \<Rightarrow> nat \<Rightarrow> complex list list" where
  "convolve H x num_samples =
    map (\<lambda>r. map (\<lambda>m.
          sum_list (map (\<lambda>t. sum_list (map (\<lambda>d.
            if d \<le> m \<and> m - d < num_samples
            then entry H (m - d) r t d * x ! t ! (m - d) else 0)
            [0..<dim_taps H])) [0..<dim_tx H]))
          [0..<num_samples + dim_taps H - 1]) [0..<dim_rx H]"

text \<open>
  Modelled from the spec: the propagation operator of the superclass \<^verbatim>\<open>Channel\<close>,
  whose source is missing (sections 4.5 and 6). The input carries one waveform per
  transmit antenna, all of one length; anything else is a validation failure. The
  impulse response for the length of the input, with the gain applied, goes through the
  antenna correlation stage and is convolved with the input. The channel state used is
  returned with the signal.
\<close>

definition propagate ::
  "resampler \<Rightarrow> channel \<Rightarrow> complex list list \<Rightarrow> real \<Rightarrow> rng \<Rightarrow>
   error + (complex list list \<times> tensor \<times> rng)" where
  "propagate drm ch x sampling_rate g =
    (let num_samples = (case x of [] \<Rightarrow> 0 | s # _ \<Rightarrow> length s)
     in if length x = num_tx_antennas (base ch) \<and> list_all (\<lambda>s. length s = num_samples) x
        then
          (case impulse_response drm ch num_samples sampling_rate g of
             Inl e \<Rightarrow> Inl e
           | Inr (H0, g') \<Rightarrow>
               (case correlate (base ch) H0 of
                  Inl e \<Rightarrow> Inl e
                | Inr H \<Rightarrow> Inr (convolve H x num_samples, H, g')))
        else Inl ValueError)"

text \<open>A signal multiplied by a real factor.\<close>

definition scale_signal :: "real \<Rightarrow> complex list list \<Rightarrow> complex list list" where
  "scale_signal a y = map (map (\<lambda>z. complex_of_real a * z)) y"

subsection \<open>Configurations of the unit tests\<close>

text \<open>
  The base state of \<^verbatim>\<open>setUp\<close> in \<^verbatim>\<open>test_multipath_fading_channel.py\<close>: active,
  gain 1, one antenna on each side, synchronisation offsets 1 and 3, no correlation
  matrices; with \<^verbatim>\<open>impulse_response_interpolation\<close> off, as the class
  \<^verbatim>\<open>TestSyncoffsetNoInterpolationFilter\<close> of the same file passes it.
\<close>

definition test_base :: channel_base where
  "test_base =
    \<lparr> active = True, gain = 1, num_tx_antennas = 1, num_rx_antennas = 1,
      impulse_response_interpolation = False, sync_offset_low = 1, sync_offset_high = 3,
      transmit_precoding = None, receive_postcoding = None \<rparr>"

text \<open>A resampler that returns a column of ones, for closed examples.\<close>

definition unit_resampler :: resampler where
  "unit_resampler sampling_rate num_in delay num_out = replicate (nat num_out) [1]"

text \<open>A random stream that always delivers one half.\<close>

definition half_stream :: rng where
  "half_stream i = 1 / 2"

text \<open>A random stream that always delivers zero.\<close>

definition zero_stream :: rng where
  "zero_stream i = 0"

text \<open>
  The channel of \<^verbatim>\<open>test_propagation_siso_no_fading\<close> without its delay: one path,
  delay 0, power 1, Rice factor infinity, every optional argument left at its default.
\<close>

definition los_channel :: channel where
  "los_channel =
    \<lparr> base = test_base, delays = [0], power_profile = [1], rice_factors = [PosInf],
      max_delay = 0, num_resolvable_paths = 1, num_sinusoids = 20, los_angle = None,
      los_gains = [1], non_los_gains = [0], doppler_frequency = 0,
      private_los_doppler_frequency = None, interpolate_signals = None \<rparr>"

section \<open>Properties\<close>

subsection \<open>Construction\<close>

lemma length_argsort: "length (argsort xs) = length xs"
  by (simp add: argsort_def)

lemma set_argsort: "set (argsort xs) = {0..<length xs}"
  by (simp add: argsort_def)

lemma sorted_take_argsort: "sorted (take_indices xs (argsort xs))"
  unfolding take_indices_def argsort_def by (rule sorted_sort_key)

lemma set_take_argsort: "length ys = length xs \<Longrightarrow> set (take_indices ys (argsort xs)) = set ys"
proof -
  assume l: "length ys = length xs"
  have "set (take_indices ys (argsort xs)) = (\<lambda>i. ys ! i) ` {0..<length xs}"
    by (simp add: take_indices_def set_argsort)
  also have "\<dots> = set ys" using l by (simp add: set_conv_nth atLeast0LessThan image_def) blast
  finally show ?thesis .
qed

lemma init_cases:
  "init b ds pp rf ns la df ldf ip = Inr ch \<longleftrightarrow>
     (length ds = length pp \<and> length pp = length rf \<and> ds \<noteq> [] \<and>
      \<not> list_ex (\<lambda>d. d < 0) ds \<and> \<not> list_ex (\<lambda>p. p < 0) pp \<and> \<not> list_ex rice_negative rf \<and>
      ch = \<lparr> base = b,
                delays = take_indices ds (argsort ds),
                power_profile = take_indices pp (argsort ds),
                rice_factors = take_indices rf (argsort ds),
                max_delay = Max (set (take_indices ds (argsort ds))),
                num_resolvable_paths = length (take_indices ds (argsort ds)),
                num_sinusoids = (case ns of None \<Rightarrow> 20 | Some n \<Rightarrow> n),
                los_angle = la,
                los_gains = map los_gain_of (take_indices rf (argsort ds)),
                non_los_gains = map non_los_gain_of (take_indices rf (argsort ds)),
                doppler_frequency = (case df of None \<Rightarrow> 0 | Some f \<Rightarrow> f),
                private_los_doppler_frequency = ldf,
                interpolate_signals = ip \<rparr>)"
  unfolding init_def validate_paths_def Let_def
  by (cases "ds = []") auto

lemma gains_unit: "\<not> rice_negative k \<Longrightarrow> (los_gain_of k)\<^sup>2 + (non_los_gain_of k)\<^sup>2 = 1"
proof (cases k)
  case (Fin x)
  assume "\<not> rice_negative k"
  with Fin have x: "0 \<le> x" by (simp add: rice_negative_def)
  then have "(sqrt (x / (1 + x)))\<^sup>2 = x / (1 + x)" by simp
  moreover from x have "(1 / sqrt (1 + x))\<^sup>2 = 1 / (1 + x)" by (simp add: power_divide)
  moreover from x have "x / (1 + x) + 1 / (1 + x) = 1" by (simp add: field_simps)
  ultimately show ?thesis using Fin by (simp add: los_gain_of_def non_los_gain_of_def)
next
  case PosInf
  then show ?thesis by (simp add: los_gain_of_def non_los_gain_of_def)
qed

text \<open>The constructor on a single path.\<close>

lemma argsort_single: "argsort [x] = [0]"
  by (simp add: argsort_def)

lemma init_single:
  "init b [d] [p] [k] ns la df ldf ip =
    (if d < 0 \<or> p < 0 \<or> rice_negative k then Inl ValueError
     else Inr \<lparr> base = b, delays = [d], power_profile = [p], rice_factors = [k],
                max_delay = d, num_resolvable_paths = 1,
                num_sinusoids = (case ns of None \<Rightarrow> 20 | Some n \<Rightarrow> n),
                los_angle = la, los_gains = [los_gain_of k], non_los_gains = [non_los_gain_of k],
                doppler_frequency = (case df of None \<Rightarrow> 0 | Some f \<Rightarrow> f),
                private_los_doppler_frequency = ldf, interpolate_signals = ip \<rparr>)"
  by (simp add: init_def validate_paths_def argsort_single take_indices_def)

lemma validate_paths_None:
  "validate_paths ds pp rf = None \<longleftrightarrow>
     length ds = length pp \<and> length pp = length rf \<and> ds \<noteq> [] \<and>
     \<not> list_ex (\<lambda>d. d < 0) ds \<and> \<not> list_ex (\<lambda>p. p < 0) pp \<and> \<not> list_ex rice_negative rf"
  by (cases ds) (auto simp: validate_paths_def)

lemma validate_paths_Some:
  "validate_paths ds pp rf = Some e \<longleftrightarrow> e = ValueError \<and> validate_paths ds pp rf \<noteq> None"
  by (auto simp: validate_paths_def)

lemma init_Inl: "init b ds pp rf ns la df ldf ip = Inl e \<longleftrightarrow> validate_paths ds pp rf = Some e"
  by (simp add: init_def Let_def split: option.splits)

lemma init_Inr_ex: "(\<exists>ch. init b ds pp rf ns la df ldf ip = Inr ch) \<longleftrightarrow> validate_paths ds pp rf = None"
  by (simp add: init_def Let_def split: option.splits)

lemma rice_negative_iff: "rice_negative k \<longleftrightarrow> (\<exists>x. k = Fin x \<and> x < 0)"
  by (cases k) (simp_all add: rice_negative_def)

lemma rice_negative_fun: "rice_negative = (\<lambda>k. case k of Fin x \<Rightarrow> x < 0 | PosInf \<Rightarrow> False)"
  by (rule ext) (simp add: rice_negative_def)

lemma no_negative_real: "list_all (\<lambda>d. 0 \<le> d) ds \<longleftrightarrow> \<not> list_ex (\<lambda>d. d < 0) (ds :: real list)"
  by (induction ds) auto

lemma no_negative_rice:
  "list_all (\<lambda>k. case k of Fin x \<Rightarrow> 0 \<le> x | PosInf \<Rightarrow> True) rf \<longleftrightarrow> \<not> list_ex rice_negative rf"
  by (induction rf) (auto simp: rice_negative_def split: rice_factor.splits)

text \<open>
  Claim C7. Construction fails with \<^verbatim>\<open>ValueError\<close> whenever the three sequences
  differ in length, whenever there is no path, and whenever a delay, a power or a
  Rice factor is strictly negative. For sequences of one non-zero length whose values
  are all non-negative (a Rice factor may be infinite) the checks pass and a channel
  is constructed.
\<close>

theorem init_validation:
  "(length ds \<noteq> length pp \<or> length pp \<noteq> length rf \<or> ds = [] \<or>
    list_ex (\<lambda>d. d < 0) ds \<or> list_ex (\<lambda>p. p < 0) pp \<or>
    list_ex (\<lambda>k. case k of Fin x \<Rightarrow> x < 0 | PosInf \<Rightarrow> False) rf
      \<longrightarrow> init b ds pp rf ns la df ldf ip = Inl ValueError) \<and>
   (length ds = length pp \<and> length pp = length rf \<and> ds \<noteq> [] \<and>
    list_all (\<lambda>d. 0 \<le> d) ds \<and> list_all (\<lambda>p. 0 \<le> p) pp \<and>
    list_all (\<lambda>k. case k of Fin x \<Rightarrow> 0 \<le> x | PosInf \<Rightarrow> True) rf
      \<longrightarrow> (\<exists>ch. init b ds pp rf ns la df ldf ip = Inr ch))"
  unfolding init_Inl init_Inr_ex validate_paths_Some validate_paths_None
    no_negative_real no_negative_rice rice_negative_fun [symmetric]
  by blast

text \<open>Claim C7 on the rejected configurations of the unit test and on an accepted one.\<close>

theorem init_validation_witness:
  "init test_base [1, 2] [1] [Fin 0] None None None None None = Inl ValueError \<and>
   init test_base [] [] [] None None None None None = Inl ValueError \<and>
   init test_base [- 1] [1] [Fin 0] None None None None None = Inl ValueError \<and>
   init test_base [0] [- 1] [Fin 0] None None None None None = Inl ValueError \<and>
   init test_base [0] [1] [Fin (- 1)] None None None None None = Inl ValueError \<and>
   (\<exists>ch. init test_base [0, 1] [1, 0] [Fin 0, PosInf] None None None None None = Inr ch)"
proof -
  have 1: "init test_base [1, 2] [1] [Fin 0] None None None None None = Inl ValueError"
    using init_validation [of "[1, 2]" "[1]" "[Fin 0]" test_base None None None None None] by simp
  have 2: "init test_base [] [] [] None None None None None = Inl ValueError"
    using init_validation [of "[]" "[]" "[]" test_base None None None None None] by simp
  have 3: "init test_base [- 1] [1] [Fin 0] None None None None None = Inl ValueError"
    using init_validation [of "[- 1]" "[1]" "[Fin 0]" test_base None None None None None] by simp
  have 4: "init test_base [0] [- 1] [Fin 0] None None None None None = Inl ValueError"
    using init_validation [of "[0]" "[- 1]" "[Fin 0]" test_base None None None None None] by simp
  have 5: "init test_base [0] [1] [Fin (- 1)] None None None None None = Inl ValueError"
    using init_validation [of "[0]" "[1]" "[Fin (- 1)]" test_base None None None None None] by simp
  have 6: "\<exists>ch. init test_base [0, 1] [1, 0] [Fin 0, PosInf] None None None None None = Inr ch"
    using init_validation [of "[0, 1]" "[1, 0]" "[Fin 0, PosInf]" test_base None None None None None]
    by simp
  from 1 2 3 4 5 6 show ?thesis by blast
qed

text \<open>
  Claim C8 says that a delay, power or Rice factor of exactly zero is rejected. The
  configuration of the unit tests' \<^verbatim>\<open>setUp\<close> has delay 0 and Rice factor 0 and is
  accepted.
\<close>

theorem zero_values_rejected_counterexample:
  "init test_base [0] [1] [Fin 0] (Some 8) None (Some 0) None None =
     Inr \<lparr> base = test_base, delays = [0], power_profile = [1], rice_factors = [Fin 0],
           max_delay = 0, num_resolvable_paths = 1, num_sinusoids = 8, los_angle = None,
           los_gains = [0], non_los_gains = [1], doppler_frequency = 0,
           private_los_doppler_frequency = None, interpolate_signals = None \<rparr>"
  by (simp add: init_single rice_negative_def los_gain_of_def non_los_gain_of_def)

text \<open>
  Claim C8, amended. A value of exactly zero is no reason for rejection: a
  configuration in which some delay, power or Rice factor is zero is rejected if and
  only if the lengths differ, there is no path, or some value is strictly negative.
\<close>

theorem zero_values_accepted:
  assumes "0 \<in> set ds \<or> 0 \<in> set pp \<or> Fin 0 \<in> set rf"
  shows "(\<exists>e. init b ds pp rf ns la df ldf ip = Inl e) \<longleftrightarrow>
         (length ds \<noteq> length pp \<or> length pp \<noteq> length rf \<or> ds = [] \<or>
          (\<exists>d \<in> set ds. d < 0) \<or> (\<exists>p \<in> set pp. p < 0) \<or> (\<exists>x. Fin x \<in> set rf \<and> x < 0))"
proof -
  have r: "(\<exists>k \<in> set rf. rice_negative k) \<longleftrightarrow> (\<exists>x. Fin x \<in> set rf \<and> x < 0)"
    unfolding rice_negative_iff by blast
  have "(\<exists>e. init b ds pp rf ns la df ldf ip = Inl e) \<longleftrightarrow> validate_paths ds pp rf \<noteq> None"
    unfolding init_Inl validate_paths_Some by blast
  then show ?thesis unfolding validate_paths_None list_ex_iff r by blast
qed

text \<open>Claim C8, amended, on the all-zero single path.\<close>

theorem zero_values_accepted_witness:
  "(0::real) \<in> set [0] \<and>
   \<not> (\<exists>e. init test_base [0] [0] [Fin 0] None None None None None = Inl e)"
  using zero_values_accepted [of "[0]" "[0]" "[Fin 0]" test_base None None None None None]
  by simp

subsection \<open>Loops and the zero-sinusoid channel\<close>

lemma for_each_all_fail:
  assumes "\<And>x s. body x s = Inl e" and "xs \<noteq> []"
  shows "for_each body xs s = Inl e"
  using assms by (cases xs) simp_all

lemma product_not_Nil: "List.product xs ys \<noteq> [] \<longleftrightarrow> xs \<noteq> [] \<and> ys \<noteq> []"
  by (induction xs) (cases ys, simp_all)+

subsection \<open>Tap generation without sinusoids\<close>

lemma tap_zero_sinusoids:
  "num_sinusoids ch = 0 \<Longrightarrow> tap ch timestamps los_gain nlos_gain g = Inl ZeroDivisionError"
  by (simp add: tap_def Let_def split: prod.splits)

lemma antenna_step_zero_sinusoids:
  "num_sinusoids ch = 0 \<Longrightarrow>
   antenna_step ch timestamps sampling_rate filt path pair state = Inl ZeroDivisionError"
  by (cases path; cases pair; cases state) (simp add: antenna_step_def tap_zero_sinusoids)

lemma path_step_zero_sinusoids:
  assumes "num_sinusoids ch = 0" "0 < num_tx_antennas (base ch)" "0 < num_rx_antennas (base ch)"
  shows "path_step ch timestamps sampling_rate filt path state = Inl ZeroDivisionError"
  unfolding path_step_def
  by (rule for_each_all_fail) (simp_all add: antenna_step_zero_sinusoids assms product_not_Nil)

lemma py_int_nonneg: "0 \<le> x \<Longrightarrow> py_int x = \<lfloor>x\<rfloor>"
  by (simp add: py_int_def)

lemma py_int_nonneg_ge: "0 \<le> x \<Longrightarrow> 0 \<le> py_int x"
  by (simp add: py_int_def)

lemma synthesize_zero_sinusoids:
  assumes z: "num_sinusoids ch = 0"
    and ant: "0 < num_tx_antennas (base ch)" "0 < num_rx_antennas (base ch)"
    and paths: "delays ch \<noteq> []" "power_profile ch \<noteq> []" "0 < num_resolvable_paths ch"
      "los_gains ch \<noteq> []" "non_los_gains ch \<noteq> []"
    and last: "0 \<le> last (delays ch) * sampling_rate"
    and filt: "impulse_response_interpolation (base ch) \<longrightarrow>
               (\<exists>F. interpolation_filter drm ch sampling_rate = Inr F)"
  shows "synthesize drm ch n sampling_rate g = Inl ZeroDivisionError"
proof -
  from last have "\<not> py_int (last (delays ch) * sampling_rate) + 1 < 0"
    using py_int_nonneg_ge [of "last (delays ch) * sampling_rate"] by simp
  then obtain Z where Z: "zeros n (num_rx_antennas (base ch)) (num_tx_antennas (base ch))
      (py_int (last (delays ch) * sampling_rate) + 1) = Inr Z"
    by (simp add: zeros_def)
  from filt obtain fo where fo: "(if impulse_response_interpolation (base ch)
       then map_sum id Some (interpolation_filter drm ch sampling_rate) else Inr None) = Inr fo"
    by (cases "impulse_response_interpolation (base ch)") auto
  from paths have ne: "zip (power_profile ch) (zip [0..<num_resolvable_paths ch]
       (zip (los_gains ch) (non_los_gains ch))) \<noteq> []"
    by (cases "power_profile ch"; cases "los_gains ch"; cases "non_los_gains ch";
        cases "num_resolvable_paths ch") (simp_all add: upt_conv_Cons)
  have "for_each (path_step ch (map (\<lambda>n. real n / sampling_rate) [0..<n]) sampling_rate fo)
         (zip (power_profile ch) (zip [0..<num_resolvable_paths ch]
            (zip (los_gains ch) (non_los_gains ch)))) (Z, g) = Inl ZeroDivisionError"
    by (rule for_each_all_fail [OF _ ne]) (rule path_step_zero_sinusoids [OF z ant])
  with Z fo paths(1) show ?thesis by (simp add: synthesize_def Let_def)
qed

lemma init_paths_nonempty:
  assumes "init b ds pp rf ns la df ldf ip = Inr ch"
  shows "delays ch \<noteq> []" "power_profile ch \<noteq> []" "0 < num_resolvable_paths ch"
    "los_gains ch \<noteq> []" "non_los_gains ch \<noteq> []" "rice_factors ch \<noteq> []"
    "length (delays ch) = num_resolvable_paths ch" "base ch = b"
proof -
  from assms have ne: "ds \<noteq> []" and ch: "delays ch = take_indices ds (argsort ds)"
    "power_profile ch = take_indices pp (argsort ds)"
    "rice_factors ch = take_indices rf (argsort ds)"
    "num_resolvable_paths ch = length (take_indices ds (argsort ds))"
    "los_gains ch = map los_gain_of (take_indices rf (argsort ds))"
    "non_los_gains ch = map non_los_gain_of (take_indices rf (argsort ds))"
    "base ch = b"
    by (simp_all add: init_cases)
  have l: "length (take_indices xs (argsort ds)) = length ds" for xs :: "'a list"
    by (simp add: take_indices_def length_argsort)
  from ne have "0 < length ds" by simp
  with l have n: "take_indices xs (argsort ds) \<noteq> []" for xs :: "'a list"
    by (metis length_greater_0_conv)
  show "delays ch \<noteq> []" "power_profile ch \<noteq> []" "rice_factors ch \<noteq> []"
    "los_gains ch \<noteq> []" "non_los_gains ch \<noteq> []"
    by (simp_all add: ch n)
  show "0 < num_resolvable_paths ch" using ne by (simp add: ch l)
  show "length (delays ch) = num_resolvable_paths ch" by (simp add: ch)
  show "base ch = b" by (rule ch)
qed

lemma init_delays:
  assumes "init b ds pp rf ns la df ldf ip = Inr ch"
  shows "sorted (delays ch)" "set (delays ch) = set ds" "\<forall>d \<in> set ds. 0 \<le> d"
proof -
  from assms have d: "delays ch = take_indices ds (argsort ds)" and n: "\<not> list_ex (\<lambda>d. d < 0) ds"
    by (simp_all add: init_cases)
  from d show "sorted (delays ch)" by (simp add: sorted_take_argsort)
  from d show "set (delays ch) = set ds" by (simp add: set_take_argsort)
  from n show "\<forall>d \<in> set ds. 0 \<le> d" by (auto simp: list_ex_iff not_less)
qed

lemma init_last_delay_nonneg:
  assumes "init b ds pp rf ns la df ldf ip = Inr ch"
  shows "0 \<le> last (delays ch)"
proof -
  from init_paths_nonempty(1) [OF assms] have "last (delays ch) \<in> set (delays ch)" by simp
  with init_delays(2,3) [OF assms] show ?thesis by blast
qed

subsection \<open>The paths and gains of a constructed channel\<close>

lemma map_nth_triples:
  assumes "length pp = length ds" "length rf = length ds"
  shows "map (\<lambda>i. (ds ! i, pp ! i, rf ! i)) [0..<length ds] = zip ds (zip pp rf)"
  using assms by (intro nth_equalityI) simp_all

lemma mset_argsort: "mset (argsort xs) = mset [0..<length xs]"
  by (simp add: argsort_def)

lemma init_paths_mset:
  assumes "init b ds pp rf ns la df ldf ip = Inr ch"
  shows "mset (zip (delays ch) (zip (power_profile ch) (zip (rice_factors ch)
                (zip (los_gains ch) (non_los_gains ch))))) =
         mset (map (\<lambda>(d, p, k). (d, p, k, los_gain_of k, non_los_gain_of k)) (zip ds (zip pp rf)))"
proof -
  let ?h = "\<lambda>i. (ds ! i, pp ! i, rf ! i, los_gain_of (rf ! i), non_los_gain_of (rf ! i))"
  from assms have len: "length pp = length ds" "length rf = length ds"
    and ch: "delays ch = take_indices ds (argsort ds)"
      "power_profile ch = take_indices pp (argsort ds)"
      "rice_factors ch = take_indices rf (argsort ds)"
      "los_gains ch = map los_gain_of (take_indices rf (argsort ds))"
      "non_los_gains ch = map non_los_gain_of (take_indices rf (argsort ds))"
    by (simp_all add: init_cases)
  have "zip (delays ch) (zip (power_profile ch) (zip (rice_factors ch)
                (zip (los_gains ch) (non_los_gains ch)))) = map ?h (argsort ds)"
    unfolding ch take_indices_def by (intro nth_equalityI) simp_all
  then have "mset (zip (delays ch) (zip (power_profile ch) (zip (rice_factors ch)
                (zip (los_gains ch) (non_los_gains ch))))) = image_mset ?h (mset (argsort ds))"
    by simp
  also have "\<dots> = mset (map ?h [0..<length ds])"
    by (simp only: mset_argsort mset_map)
  also have "map ?h [0..<length ds] =
      map (\<lambda>(d, p, k). (d, p, k, los_gain_of k, non_los_gain_of k))
        (map (\<lambda>i. (ds ! i, pp ! i, rf ! i)) [0..<length ds])"
    by simp
  also have "\<dots> = map (\<lambda>(d, p, k). (d, p, k, los_gain_of k, non_los_gain_of k)) (zip ds (zip pp rf))"
    by (simp only: map_nth_triples [OF len])
  finally show ?thesis .
qed

lemma gain_formulas:
  "los_gain_of = (\<lambda>k. case k of Fin K \<Rightarrow> sqrt (K / (1 + K)) | PosInf \<Rightarrow> 1)"
  "non_los_gain_of = (\<lambda>k. case k of Fin K \<Rightarrow> 1 / sqrt (1 + K) | PosInf \<Rightarrow> 0)"
  by (intro ext, simp add: los_gain_of_def non_los_gain_of_def split: rice_factor.splits)+

text \<open>
  Claim C1. For every configuration the constructor accepts, the paths of the channel
  are the configured triples of delay, power and Rice factor, in ascending order of
  delay, each with the gains derived from its own Rice factor \<open>K\<close>:
  \<open>los_gain = sqrt (K / (1 + K))\<close> and \<open>nlos_gain = 1 / sqrt (1 + K)\<close> for a finite
  \<open>K\<close>, and \<open>los_gain = 1\<close>, \<open>nlos_gain = 0\<close> for an infinite one. All five vectors
  have one entry per configured path, and for every path the squares of the two gains
  add up to 1.
\<close>

theorem init_gains:
  assumes "init b ds pp rf ns la df ldf ip = Inr ch"
  shows "mset (zip (delays ch) (zip (power_profile ch) (zip (rice_factors ch)
                (zip (los_gains ch) (non_los_gains ch))))) =
         mset (map (\<lambda>(d, p, k). (d, p, k,
                       (case k of Fin K \<Rightarrow> sqrt (K / (1 + K)) | PosInf \<Rightarrow> 1),
                       (case k of Fin K \<Rightarrow> 1 / sqrt (1 + K) | PosInf \<Rightarrow> 0)))
                   (zip ds (zip pp rf))) \<and>
         sorted (delays ch) \<and>
         num_resolvable_paths ch = length rf \<and>
         length (delays ch) = length rf \<and> length (power_profile ch) = length rf \<and>
         length (rice_factors ch) = length rf \<and>
         length (los_gains ch) = length rf \<and> length (non_los_gains ch) = length rf \<and>
         (\<forall>i < length rf.
            (case rice_factors ch ! i of
               Fin K \<Rightarrow> los_gains ch ! i = sqrt (K / (1 + K)) \<and>
                         non_los_gains ch ! i = 1 / sqrt (1 + K)
             | PosInf \<Rightarrow> los_gains ch ! i = 1 \<and> non_los_gains ch ! i = 0) \<and>
            (los_gains ch ! i)\<^sup>2 + (non_los_gains ch ! i)\<^sup>2 = 1)"
proof (intro conjI allI impI)
  show "mset (zip (delays ch) (zip (power_profile ch) (zip (rice_factors ch)
                (zip (los_gains ch) (non_los_gains ch))))) =
         mset (map (\<lambda>(d, p, k). (d, p, k,
                       (case k of Fin K \<Rightarrow> sqrt (K / (1 + K)) | PosInf \<Rightarrow> 1),
                       (case k of Fin K \<Rightarrow> 1 / sqrt (1 + K) | PosInf \<Rightarrow> 0)))
                   (zip ds (zip pp rf)))"
    using init_paths_mset [OF assms] unfolding gain_formulas .
  show "sorted (delays ch)" by (rule init_delays(1) [OF assms])
  from assms have len: "length pp = length ds" "length rf = length ds"
    and ch: "delays ch = take_indices ds (argsort ds)"
      "power_profile ch = take_indices pp (argsort ds)"
      "rice_factors ch = take_indices rf (argsort ds)"
      "los_gains ch = map los_gain_of (take_indices rf (argsort ds))"
      "non_los_gains ch = map non_los_gain_of (take_indices rf (argsort ds))"
      "num_resolvable_paths ch = length (take_indices ds (argsort ds))"
    and ok: "\<not> list_ex rice_negative rf"
    by (simp_all add: init_cases)
  have l: "length (take_indices xs (argsort ds)) = length ds" for xs :: "'a list"
    by (simp add: take_indices_def length_argsort)
  show "num_resolvable_paths ch = length rf" "length (delays ch) = length rf"
    "length (power_profile ch) = length rf" "length (rice_factors ch) = length rf"
    "length (los_gains ch) = length rf" "length (non_los_gains ch) = length rf"
    by (simp_all add: ch l len)
  fix i assume "i < length rf"
  with len have i: "i < length (take_indices rf (argsort ds))" by (simp add: l)
  let ?k = "take_indices rf (argsort ds) ! i"
  from i have "?k \<in> set (take_indices rf (argsort ds))" by simp
  with len have "?k \<in> set rf" by (simp add: set_take_argsort)
  with ok have nn: "\<not> rice_negative ?k" by (auto simp: list_ex_iff)
  from i have li: "los_gains ch ! i = los_gain_of ?k" and ni: "non_los_gains ch ! i = non_los_gain_of ?k"
    by (simp_all add: ch)
  show "case rice_factors ch ! i of
               Fin K \<Rightarrow> los_gains ch ! i = sqrt (K / (1 + K)) \<and>
                         non_los_gains ch ! i = 1 / sqrt (1 + K)
             | PosInf \<Rightarrow> los_gains ch ! i = 1 \<and> non_los_gains ch ! i = 0"
    unfolding li ni ch(3) by (cases ?k) (simp_all add: los_gain_of_def non_los_gain_of_def)
  show "(los_gains ch ! i)\<^sup>2 + (non_los_gains ch ! i)\<^sup>2 = 1"
    unfolding li ni by (rule gains_unit [OF nn])
qed

lemma argsort_swap: "argsort [1, 0] = [1, 0]"
  by (simp add: argsort_def upt_rec)

text \<open>
  Claim C1 on two paths given in descending order of delay, one with Rice factor 3
  (gains \<open>sqrt (3 / 4)\<close> and \<open>1 / 2\<close>) and one with an infinite Rice factor.
\<close>

theorem init_gains_witness:
  "\<exists>ch. init test_base [1, 0] [2, 1] [Fin 3, PosInf] None None None None None = Inr ch \<and>
        delays ch = [0, 1] \<and> power_profile ch = [1, 2] \<and> rice_factors ch = [PosInf, Fin 3] \<and>
        los_gains ch = [1, sqrt (3 / 4)] \<and> non_los_gains ch = [0, 1 / 2] \<and>
        (los_gains ch ! 1)\<^sup>2 + (non_los_gains ch ! 1)\<^sup>2 = 1 \<and>
        mset (zip (delays ch) (zip (power_profile ch) (zip (rice_factors ch)
                (zip (los_gains ch) (non_los_gains ch))))) =
          mset [(1, 2, Fin 3, sqrt (3 / 4), 1 / 2), (0, 1, PosInf, 1, 0)]"
proof -
  obtain ch where ch: "init test_base [1, 0] [2, 1] [Fin 3, PosInf] None None None None None = Inr ch"
    and f: "delays ch = [0, 1]" "power_profile ch = [1, 2]" "rice_factors ch = [PosInf, Fin 3]"
      "los_gains ch = [1, sqrt (3 / 4)]" "non_los_gains ch = [0, 1 / 2]"
    by (simp add: init_def validate_paths_def rice_negative_def argsort_swap take_indices_def
          los_gain_of_def non_los_gain_of_def real_sqrt_divide)
  note w = init_gains [OF ch]
  from w have m: "mset (zip (delays ch) (zip (power_profile ch) (zip (rice_factors ch)
                (zip (los_gains ch) (non_los_gains ch))))) =
          mset [(1, 2, Fin 3, sqrt (3 / 4), 1 / 2), (0, 1, PosInf, 1, 0)]"
    by simp
  from w have "(los_gains ch ! 1)\<^sup>2 + (non_los_gains ch ! 1)\<^sup>2 = 1" by simp
  with ch f m show ?thesis by blast
qed

text \<open>
  Claim C10. The setter of \<^verbatim>\<open>num_sinusoids\<close> accepts 0: it rejects exactly the
  strictly negative numbers. On a channel with no
  sinusoids every tap generation raises \<^verbatim>\<open>ZeroDivisionError\<close>, and so does the
  impulse response of a constructed channel with an antenna on each side, at a positive
  sampling rate, once the interpolation filter (if the policy asks for one) was built.
\<close>

theorem zero_sinusoids_raise:
  assumes "init b ds pp rf ns la df ldf ip = Inr ch"
  shows "set_num_sinusoids 0 ch = Inr (ch\<lparr>num_sinusoids := 0\<rparr>) \<and>
         (\<forall>num. (\<exists>e. set_num_sinusoids num ch = Inl e) \<longleftrightarrow> num < 0) \<and>
         (\<forall>timestamps los_gain nlos_gain g.
            tap (ch\<lparr>num_sinusoids := 0\<rparr>) timestamps los_gain nlos_gain g = Inl ZeroDivisionError) \<and>
         (0 < num_tx_antennas b \<and> 0 < num_rx_antennas b \<and> 0 < sampling_rate \<and>
          (impulse_response_interpolation b \<longrightarrow>
             (\<exists>F. interpolation_filter drm (ch\<lparr>num_sinusoids := 0\<rparr>) sampling_rate = Inr F))
          \<longrightarrow> impulse_response drm (ch\<lparr>num_sinusoids := 0\<rparr>) num_samples sampling_rate g
                = Inl ZeroDivisionError)"
proof (intro conjI allI impI)
  show "set_num_sinusoids 0 ch = Inr (ch\<lparr>num_sinusoids := 0\<rparr>)"
    by (simp add: set_num_sinusoids_def)
next
  fix num
  show "(\<exists>e. set_num_sinusoids num ch = Inl e) \<longleftrightarrow> num < 0"
    by (simp add: set_num_sinusoids_def)
next
  fix timestamps los_gain nlos_gain g
  show "tap (ch\<lparr>num_sinusoids := 0\<rparr>) timestamps los_gain nlos_gain g = Inl ZeroDivisionError"
    by (rule tap_zero_sinusoids) simp
next
  let ?ch = "ch\<lparr>num_sinusoids := 0\<rparr>"
  assume h: "0 < num_tx_antennas b \<and> 0 < num_rx_antennas b \<and> 0 < sampling_rate \<and>
          (impulse_response_interpolation b \<longrightarrow>
             (\<exists>F. interpolation_filter drm ?ch sampling_rate = Inr F))"
  note p = init_paths_nonempty [OF assms]
  from init_last_delay_nonneg [OF assms] h have l: "0 \<le> last (delays ?ch) * sampling_rate"
    by simp
  have "synthesize drm ?ch num_samples sampling_rate g = Inl ZeroDivisionError"
    by (rule synthesize_zero_sinusoids) (use h p l in simp_all)
  then show "impulse_response drm ?ch num_samples sampling_rate g = Inl ZeroDivisionError"
    by (simp add: impulse_response_def)
qed

text \<open>Claim C10 on the configuration of the unit tests.\<close>

theorem zero_sinusoids_raise_witness:
  "\<exists>ch. init test_base [0] [1] [Fin 0] (Some 8) None (Some 0) None None = Inr ch \<and>
        set_num_sinusoids 0 ch = Inr (ch\<lparr>num_sinusoids := 0\<rparr>) \<and>
        tap (ch\<lparr>num_sinusoids := 0\<rparr>) [0] 0 1 half_stream = Inl ZeroDivisionError \<and>
        impulse_response unit_resampler (ch\<lparr>num_sinusoids := 0\<rparr>) 1 1 half_stream
          = Inl ZeroDivisionError"
proof -
  obtain ch where ch: "init test_base [0] [1] [Fin 0] (Some 8) None (Some 0) None None = Inr ch"
    by (simp add: init_single rice_negative_def)
  have t: "0 < num_tx_antennas test_base \<and> 0 < num_rx_antennas test_base \<and> (0::real) < 1 \<and>
      (impulse_response_interpolation test_base \<longrightarrow>
         (\<exists>F. interpolation_filter unit_resampler (ch\<lparr>num_sinusoids := 0\<rparr>) 1 = Inr F))"
    by (simp add: test_base_def)
  from zero_sinusoids_raise [OF ch, of 1 unit_resampler 1 half_stream] t ch
  show ?thesis by blast
qed

subsection \<open>The recommended sampling rate\<close>

text \<open>
  With interpolation on the query returns 0. With interpolation off and two or more
  paths it returns \<open>(1 - 0.4) / min (diff delays)\<close>, and 0 when the smallest gap is 0.
\<close>

lemma min_sampling_rate_interpolated:
  "impulse_response_interpolation (base ch) \<Longrightarrow> min_sampling_rate ch = Inr 0"
  by (simp add: min_sampling_rate_def)

lemma diff_Nil_iff: "diff xs = [] \<longleftrightarrow> length xs \<le> 1"
  by (cases xs; cases "tl xs") (simp_all add: diff_def)

lemma min_sampling_rate_paths:
  assumes "\<not> impulse_response_interpolation (base ch)" "2 \<le> length (delays ch)"
  shows "min_sampling_rate ch =
           Inr (if Min (set (diff (delays ch))) = 0 then 0
                else (1 - 4 / 10) / Min (set (diff (delays ch))))"
  using assms by (simp add: min_sampling_rate_def Let_def diff_Nil_iff delay_resolution_error_def)

text \<open>
  Claim C9 says that the query returns a value for every valid path set, a single path
  included. With interpolation off, a single path leaves \<^verbatim>\<open>np.diff\<close> empty and
  \<^verbatim>\<open>np.min\<close> raises \<^verbatim>\<open>ValueError\<close>.
\<close>

theorem min_sampling_rate_single_path:
  assumes "init b [d] [p] [k] ns la df ldf ip = Inr ch"
    and "\<not> impulse_response_interpolation b"
  shows "min_sampling_rate ch = Inl ValueError"
  using assms
  by (auto simp: init_single min_sampling_rate_def diff_def split: if_splits)

text \<open>Claim C9 on the configuration of the unit tests.\<close>

theorem min_sampling_rate_single_path_witness:
  "\<exists>ch. init test_base [0] [1] [Fin 0] (Some 8) None (Some 0) None None = Inr ch \<and>
        \<not> impulse_response_interpolation test_base \<and>
        min_sampling_rate ch = Inl ValueError"
proof -
  obtain ch where ch: "init test_base [0] [1] [Fin 0] (Some 8) None (Some 0) None None = Inr ch"
    by (simp add: init_single rice_negative_def)
  have n: "\<not> impulse_response_interpolation test_base" by (simp add: test_base_def)
  from min_sampling_rate_single_path [OF ch n] ch n show ?thesis by blast
qed

subsection \<open>Serialisation\<close>

lemma to_yaml_rice_factors: "to_yaml ch ''rice_factors'' = None"
  by (simp add: to_yaml_def)

lemma to_yaml_power_profile: "to_yaml ch ''power_profile'' = Some (YList (power_profile ch))"
  by (simp add: to_yaml_def)

lemma restore_keeps_other_keys:
  "key \<noteq> ''power_profile'' \<Longrightarrow> restore_power_profile state key = state key"
  by (simp add: restore_power_profile_def split: option.splits yaml_value.splits)

lemma construct_without_rice_factors:
  "state ''rice_factors'' = None \<Longrightarrow> construct channel_init state = Inl TypeError"
  by (simp add: construct_def split: option.splits)

lemma db_to_linear_fixed: "db_to_linear 1 \<noteq> 1"
proof
  assume "db_to_linear 1 = 1"
  then have "(10::real) powr (1 / 10) = 1" by (simp add: db_to_linear_def)
  then have "(1::real) / 10 = 0" using powr_eq_one_iff [of 10 "1 / 10"] by simp
  then show False by simp
qed

text \<open>
  Claim C6 asks that reading back what \<^verbatim>\<open>to_yaml\<close> wrote restores the channel.
  The dictionary written has no key \<^verbatim>\<open>rice_factors\<close>, so the constructor call
  of \<^verbatim>\<open>from_yaml\<close> raises \<^verbatim>\<open>TypeError\<close> for every channel; and the power
  profile, written in linear scale, is read as decibels: a power of 1 comes back as
  \<open>10 powr (1 / 10)\<close>.
\<close>

theorem yaml_round_trip_fails:
  "from_yaml channel_init (to_yaml ch) = Inl TypeError \<and>
   restore_power_profile (to_yaml ch) ''power_profile''
     = Some (YList (map db_to_linear (power_profile ch))) \<and>
   db_to_linear 1 \<noteq> 1"
proof (intro conjI)
  have "restore_power_profile (to_yaml ch) ''rice_factors'' = None"
    by (simp add: restore_keeps_other_keys to_yaml_rice_factors)
  then show "from_yaml channel_init (to_yaml ch) = Inl TypeError"
    unfolding from_yaml_def by (rule construct_without_rice_factors)
  show "restore_power_profile (to_yaml ch) ''power_profile''
     = Some (YList (map db_to_linear (power_profile ch)))"
    by (simp add: restore_power_profile_def to_yaml_power_profile)
  show "db_to_linear 1 \<noteq> 1" by (rule db_to_linear_fixed)
qed

subsection \<open>Tap generation with sinusoids\<close>

lemma length_add_seq: "length (add_seq a b) = min (length a) (length b)"
  by (simp add: add_seq_def)

lemma length_nlos_term: "length (nlos_term ch timestamps A P s) = length timestamps"
  by (simp add: nlos_term_def)

lemma length_nlos_sum:
  "length acc = length timestamps \<Longrightarrow>
   length (fold (\<lambda>s acc. add_seq acc (nlos_term ch timestamps A P s)) xs acc) = length timestamps"
  by (induction xs arbitrary: acc) (simp_all add: length_add_seq length_nlos_term)

text \<open>The angle and the phase of the line-of-sight component, and the stream left behind.\<close>

lemma tap_result:
  assumes "0 < num_sinusoids ch"
  shows "\<exists>nlos_component los_ang los_phase g'.
           length nlos_component = length timestamps \<and>
           (nlos_gain = 0 \<longrightarrow> nlos_component = replicate (length timestamps) 0) \<and>
           (los_ang, los_phase, g') =
             (let g2 = (\<lambda>i. g (i + nat (num_sinusoids ch) + nat (num_sinusoids ch)))
              in case los_angle ch of
                   Some a \<Rightarrow> (a, 2 * pi * g2 0, \<lambda>i. g2 (Suc i))
                 | None \<Rightarrow> (2 * pi * g2 0, 2 * pi * g2 1, \<lambda>i. g2 (Suc (Suc i)))) \<and>
           tap ch timestamps los_gain nlos_gain g =
             Inr (add_seq
                   (map (\<lambda>t. complex_of_real los_gain *
                          exp (\<i> * complex_of_real
                            (los_doppler_frequency ch * t * cos los_ang + los_phase)))
                        timestamps)
                   nlos_component, g')"
proof -
  let ?n = "nat (num_sinusoids ch)"
  let ?A = "fst (uniform_n 0 (2 * pi) ?n g)"
  let ?g1 = "snd (uniform_n 0 (2 * pi) ?n g)"
  let ?P = "fst (uniform_n 0 (2 * pi) ?n ?g1)"
  let ?sum = "fold (\<lambda>s acc. add_seq acc (nlos_term ch timestamps ?A ?P s)) [0..<?n]
                (replicate (length timestamps) 0)"
  let ?c = "complex_of_real (nlos_gain * real_of_int (num_sinusoids ch) powr (- 1 / 2))"
  let ?nlos = "map (\<lambda>z. z * ?c) ?sum"
  have len: "length ?sum = length timestamps" by (rule length_nlos_sum) simp
  have zero: "nlos_gain = 0 \<longrightarrow> ?nlos = replicate (length timestamps) 0"
  proof
    assume "nlos_gain = 0"
    then have "?nlos = map (\<lambda>z. 0) ?sum" by simp
    also have "\<dots> = replicate (length ?sum) 0" by (simp add: map_replicate_const)
    finally show "?nlos = replicate (length timestamps) 0" by (simp only: len)
  qed
  have g2: "snd (uniform_n 0 (2 * pi) ?n ?g1) = (\<lambda>i. g (i + ?n + ?n))"
    by (simp add: uniform_n_def)
  show ?thesis
  proof (cases "los_angle ch")
    case None
    with assms len zero show ?thesis
      apply (intro exI [of _ ?nlos])
      apply (simp add: tap_def Let_def uniform_def g2 split_beta del: fold_simps)
      done
  next
    case (Some a)
    with assms len zero show ?thesis
      apply (intro exI [of _ ?nlos])
      apply (simp add: tap_def Let_def uniform_def g2 split_beta)
      done
  qed
qed

lemma length_tap:
  assumes "tap ch timestamps los_gain nlos_gain g = Inr (t, g')"
  shows "length t = length timestamps"
proof -
  from assms have "0 < num_sinusoids ch"
    by (cases "num_sinusoids ch < 0"; cases "num_sinusoids ch = 0")
       (simp_all add: tap_def Let_def split_beta)
  from tap_result [OF this, of timestamps nlos_gain g los_gain] assms show ?thesis
    by (auto simp: length_add_seq)
qed

lemma tap_succeeds:
  "0 < num_sinusoids ch \<Longrightarrow>
   \<exists>t g'. tap ch timestamps los_gain nlos_gain g = Inr (t, g') \<and> length t = length timestamps"
  using tap_result [of ch timestamps nlos_gain g los_gain] by (auto simp: length_add_seq)

subsection \<open>The nearest-sample deposit\<close>

lemma init_delay_bounds:
  assumes "init b ds pp rf ns la df ldf ip = Inr ch" and "path_idx < num_resolvable_paths ch"
  shows "0 \<le> delays ch ! path_idx" "delays ch ! path_idx \<le> last (delays ch)"
proof -
  note p = init_paths_nonempty [OF assms(1)]
  from assms(2) p(7) have i: "path_idx < length (delays ch)" by simp
  then have "delays ch ! path_idx \<in> set (delays ch)" by simp
  with init_delays(2,3) [OF assms(1)] show "0 \<le> delays ch ! path_idx" by blast
  from i have "path_idx \<le> length (delays ch) - 1" by simp
  with init_delays(1) [OF assms(1)] i p(1)
  show "delays ch ! path_idx \<le> last (delays ch)"
    by (simp add: last_conv_nth sorted_nth_mono)
qed

lemma delay_index_in_range:
  assumes "init b ds pp rf ns la df ldf ip = Inr ch" and "path_idx < num_resolvable_paths ch"
    and "0 < sampling_rate"
  shows "py_int (delays ch ! path_idx * sampling_rate) = \<lfloor>delays ch ! path_idx * sampling_rate\<rfloor>"
    "0 \<le> \<lfloor>delays ch ! path_idx * sampling_rate\<rfloor>"
    "\<lfloor>delays ch ! path_idx * sampling_rate\<rfloor> < py_int (last (delays ch) * sampling_rate) + 1"
proof -
  note b = init_delay_bounds [OF assms(1,2)]
  from b(1) assms(3) have nn: "0 \<le> delays ch ! path_idx * sampling_rate" by simp
  then show "py_int (delays ch ! path_idx * sampling_rate) = \<lfloor>delays ch ! path_idx * sampling_rate\<rfloor>"
    by (rule py_int_nonneg)
  from nn show "0 \<le> \<lfloor>delays ch ! path_idx * sampling_rate\<rfloor>" by simp
  from b assms(3) have le: "delays ch ! path_idx * sampling_rate \<le> last (delays ch) * sampling_rate"
    and "0 \<le> last (delays ch) * sampling_rate" by simp_all
  then have "py_int (last (delays ch) * sampling_rate) = \<lfloor>last (delays ch) * sampling_rate\<rfloor>"
    by (simp add: py_int_nonneg)
  moreover from le have "\<lfloor>delays ch ! path_idx * sampling_rate\<rfloor> \<le> \<lfloor>last (delays ch) * sampling_rate\<rfloor>"
    by (rule floor_mono)
  ultimately show "\<lfloor>delays ch ! path_idx * sampling_rate\<rfloor> < py_int (last (delays ch) * sampling_rate) + 1"
    by simp
qed

lemma add_tap_column_in_range:
  assumes "rx_idx < dim_rx T" "tx_idx < dim_tx T" "0 \<le> c" "c < int (dim_taps T)"
    "length w = dim_samples T"
  shows "add_tap_column T rx_idx tx_idx c w =
    Inr (T\<lparr>entry := (\<lambda>k i j d.
           if k < dim_samples T \<and> i = rx_idx \<and> j = tx_idx \<and> d = nat c
           then entry T k i j d + w ! k else entry T k i j d)\<rparr>)"
  using assms by (simp add: add_tap_column_def np_index_def)

lemma add_tap_column_antenna_out_of_range:
  "dim_rx T \<le> rx_idx \<or> dim_tx T \<le> tx_idx \<Longrightarrow> add_tap_column T rx_idx tx_idx c w = Inl IndexError"
  by (simp add: add_tap_column_def)

text \<open>One pass of the inner loop under the nearest-sample policy, on indices in range.\<close>

lemma antenna_step_nearest:
  assumes init: "init b ds pp rf ns la df ldf ip = Inr ch"
    and sr: "0 < sampling_rate"
    and p: "path_idx < num_resolvable_paths ch"
    and shape: "dim_samples T = length timestamps"
      "dim_taps T = nat (py_int (last (delays ch) * sampling_rate) + 1)"
    and ant: "rx_idx < dim_rx T" "tx_idx < dim_tx T"
    and tap: "tap ch timestamps los_gain nlos_gain g = Inr (t, g')"
  shows "antenna_step ch timestamps sampling_rate None (path_power, path_idx, los_gain, nlos_gain)
           (rx_idx, tx_idx) (T, g) =
         Inr (T\<lparr>entry := (\<lambda>k i j d.
                if k < dim_samples T \<and> i = rx_idx \<and> j = tx_idx \<and>
                   d = nat \<lfloor>delays ch ! path_idx * sampling_rate\<rfloor>
                then entry T k i j d + complex_of_real (sqrt path_power) * t ! k
                else entry T k i j d)\<rparr>, g')"
    and "nat \<lfloor>delays ch ! path_idx * sampling_rate\<rfloor> < dim_taps T"
proof -
  let ?w = "map (\<lambda>z. complex_of_real (sqrt path_power) * z) t"
  let ?c = "\<lfloor>delays ch ! path_idx * sampling_rate\<rfloor>"
  note r = delay_index_in_range [OF init p sr]
  from length_tap [OF tap] shape(1) have lw: "length ?w = dim_samples T" by simp
  from r(2,3) shape(2) have c: "?c < int (dim_taps T)" by linarith
  with r(2) show "nat ?c < dim_taps T" by linarith
  from p init_paths_nonempty(7) [OF init] have pl: "\<not> length (delays ch) \<le> path_idx" by simp
  have "deposit ch sampling_rate None path_idx rx_idx tx_idx ?w T =
          add_tap_column T rx_idx tx_idx ?c ?w"
    using pl by (simp add: deposit_def r(1))
  also have "\<dots> = Inr (T\<lparr>entry := (\<lambda>k i j d.
           if k < dim_samples T \<and> i = rx_idx \<and> j = tx_idx \<and> d = nat ?c
           then entry T k i j d + ?w ! k else entry T k i j d)\<rparr>)"
    by (rule add_tap_column_in_range [OF ant r(2) c lw])
  also have "(\<lambda>k i j d.
           if k < dim_samples T \<and> i = rx_idx \<and> j = tx_idx \<and> d = nat ?c
           then entry T k i j d + ?w ! k else entry T k i j d) =
         (\<lambda>k i j d.
           if k < dim_samples T \<and> i = rx_idx \<and> j = tx_idx \<and> d = nat ?c
           then entry T k i j d + complex_of_real (sqrt path_power) * t ! k else entry T k i j d)"
    using lw by (intro ext) simp
  finally show "antenna_step ch timestamps sampling_rate None (path_power, path_idx, los_gain, nlos_gain)
           (rx_idx, tx_idx) (T, g) =
         Inr (T\<lparr>entry := (\<lambda>k i j d.
                if k < dim_samples T \<and> i = rx_idx \<and> j = tx_idx \<and> d = nat ?c
                then entry T k i j d + complex_of_real (sqrt path_power) * t ! k
                else entry T k i j d)\<rparr>, g')"
    by (simp add: antenna_step_def tap)
qed

subsection \<open>The synthesis under the nearest-sample policy\<close>

lemma for_each_append:
  "for_each body (xs @ ys) s =
     (case for_each body xs s of Inl e \<Rightarrow> Inl e | Inr s' \<Rightarrow> for_each body ys s')"
  by (induction xs arbitrary: s) (simp_all split: sum.splits)

lemma for_each_map: "for_each body (map f xs) s = for_each (\<lambda>x. body (f x)) xs s"
  by (induction xs arbitrary: s) (simp_all split: sum.splits)

text \<open>Two nested loops are one loop over the pairs, the outer index running slowest.\<close>

lemma for_each_product:
  "for_each (\<lambda>x. for_each (\<lambda>y. body (x, y)) ys) xs s = for_each body (List.product xs ys) s"
proof (induction xs arbitrary: s)
  case Nil
  show ?case by simp
next
  case (Cons x xs)
  show ?case
    by (simp add: for_each_append for_each_map Cons.IH split: sum.splits)
qed

lemma sum_list_all_zero:
  "(\<And>x. x \<in> set xs \<Longrightarrow> f x = 0) \<Longrightarrow> sum_list (map f xs) = (0::complex)"
  by (induction xs) simp_all

lemma nearest_loop:
  assumes init: "init b ds pp rf ns la df ldf ip = Inr ch"
    and sr: "0 < sampling_rate" and sin: "0 < num_sinusoids ch"
    and shape: "dim_samples T = length timestamps"
      "dim_taps T = nat (py_int (last (delays ch) * sampling_rate) + 1)"
    and valid: "\<And>path_power path_idx los_gain nlos_gain rx tx.
        ((path_power, path_idx, los_gain, nlos_gain), (rx, tx)) \<in> set jobs \<Longrightarrow>
        path_idx < num_resolvable_paths ch \<and> rx < dim_rx T \<and> tx < dim_tx T"
  shows "\<exists>T' g'.
     for_each (\<lambda>job. antenna_step ch timestamps sampling_rate None (fst job) (snd job)) jobs (T, g)
       = Inr (T', g') \<and>
     dim_samples T' = dim_samples T \<and> dim_rx T' = dim_rx T \<and> dim_tx T' = dim_tx T \<and>
     dim_taps T' = dim_taps T \<and>
     length (gain_sequences ch timestamps (map job_gains jobs) g) = length jobs \<and>
     (\<forall>k i j d. entry T' k i j d = entry T k i j d +
        sum_list (map (tap_contribution ch sampling_rate (length timestamps) k i j d)
          (zip jobs (gain_sequences ch timestamps (map job_gains jobs) g))))"
  using shape valid
proof (induction jobs arbitrary: T g)
  case Nil
  show ?case by simp
next
  case (Cons job jobs)
  obtain path_power path_idx los_gain nlos_gain rx tx where
    job: "job = ((path_power, path_idx, los_gain, nlos_gain), (rx, tx))"
    by (cases job) auto
  from Cons.prems(3) [of path_power path_idx los_gain nlos_gain rx tx] job
  have v: "path_idx < num_resolvable_paths ch" "rx < dim_rx T" "tx < dim_tx T" by simp_all
  from tap_succeeds [OF sin, of timestamps los_gain nlos_gain g]
  obtain t g1 where t: "tap ch timestamps los_gain nlos_gain g = Inr (t, g1)" by blast
  define T1 where "T1 = T\<lparr>entry := (\<lambda>k i j d.
                if k < dim_samples T \<and> i = rx \<and> j = tx \<and>
                   d = nat \<lfloor>delays ch ! path_idx * sampling_rate\<rfloor>
                then entry T k i j d + complex_of_real (sqrt path_power) * t ! k
                else entry T k i j d)\<rparr>"
  have step: "antenna_step ch timestamps sampling_rate None (fst job) (snd job) (T, g) = Inr (T1, g1)"
    unfolding job T1_def fst_conv snd_conv
    by (rule antenna_step_nearest(1) [OF init sr v(1) Cons.prems(1,2) v(2,3) t])
  have d1: "dim_samples T1 = dim_samples T" "dim_rx T1 = dim_rx T" "dim_tx T1 = dim_tx T"
    "dim_taps T1 = dim_taps T"
    by (simp_all add: T1_def)
  have e1: "entry T1 k i j d = entry T k i j d +
      tap_contribution ch sampling_rate (length timestamps) k i j d (job, t)" for k i j d
    by (simp add: T1_def job tap_contribution_def Cons.prems(1))
  have "\<exists>T' g'.
     for_each (\<lambda>job. antenna_step ch timestamps sampling_rate None (fst job) (snd job)) jobs (T1, g1)
       = Inr (T', g') \<and>
     dim_samples T' = dim_samples T1 \<and> dim_rx T' = dim_rx T1 \<and> dim_tx T' = dim_tx T1 \<and>
     dim_taps T' = dim_taps T1 \<and>
     length (gain_sequences ch timestamps (map job_gains jobs) g1) = length jobs \<and>
     (\<forall>k i j d. entry T' k i j d = entry T1 k i j d +
        sum_list (map (tap_contribution ch sampling_rate (length timestamps) k i j d)
          (zip jobs (gain_sequences ch timestamps (map job_gains jobs) g1))))"
  proof (rule Cons.IH)
    show "dim_samples T1 = length timestamps" by (simp add: d1 Cons.prems(1))
    show "dim_taps T1 = nat (py_int (last (delays ch) * sampling_rate) + 1)"
      by (simp add: d1 Cons.prems(2))
    fix path_power path_idx los_gain nlos_gain rx tx
    assume "((path_power, path_idx, los_gain, nlos_gain), (rx, tx)) \<in> set jobs"
    then have "((path_power, path_idx, los_gain, nlos_gain), (rx, tx)) \<in> set (job # jobs)" by simp
    from Cons.prems(3) [OF this]
    show "path_idx < num_resolvable_paths ch \<and> rx < dim_rx T1 \<and> tx < dim_tx T1"
      by (simp add: d1)
  qed
  then obtain T' g' where
    r: "for_each (\<lambda>job. antenna_step ch timestamps sampling_rate None (fst job) (snd job)) jobs (T1, g1)
       = Inr (T', g')"
    and d: "dim_samples T' = dim_samples T1" "dim_rx T' = dim_rx T1" "dim_tx T' = dim_tx T1"
      "dim_taps T' = dim_taps T1"
    and l: "length (gain_sequences ch timestamps (map job_gains jobs) g1) = length jobs"
    and e: "\<And>k i j d. entry T' k i j d = entry T1 k i j d +
        sum_list (map (tap_contribution ch sampling_rate (length timestamps) k i j d)
          (zip jobs (gain_sequences ch timestamps (map job_gains jobs) g1)))"
    by blast
  have gs: "gain_sequences ch timestamps (map job_gains (job # jobs)) g =
      t # gain_sequences ch timestamps (map job_gains jobs) g1"
    by (simp add: job job_gains_def t)
  show ?case
  proof (intro exI conjI allI)
    show "for_each (\<lambda>job. antenna_step ch timestamps sampling_rate None (fst job) (snd job))
            (job # jobs) (T, g) = Inr (T', g')"
      by (simp add: step r)
    show "dim_samples T' = dim_samples T" "dim_rx T' = dim_rx T" "dim_tx T' = dim_tx T"
      "dim_taps T' = dim_taps T"
      by (simp_all add: d d1)
    show "length (gain_sequences ch timestamps (map job_gains (job # jobs)) g) = length (job # jobs)"
      unfolding gs by (simp add: l)
    fix k i j d
    show "entry T' k i j d = entry T k i j d +
        sum_list (map (tap_contribution ch sampling_rate (length timestamps) k i j d)
          (zip (job # jobs) (gain_sequences ch timestamps (map job_gains (job # jobs)) g)))"
      unfolding gs by (simp add: e e1 add.assoc)
  qed
qed

lemma path_step_flat:
  "for_each (path_step ch timestamps sampling_rate filt) paths state =
   for_each (\<lambda>job. antenna_step ch timestamps sampling_rate filt (fst job) (snd job))
     (List.product paths
        (List.product [0..<num_tx_antennas (base ch)] [0..<num_rx_antennas (base ch)])) state"
proof -
  have eq: "path_step ch timestamps sampling_rate filt =
      (\<lambda>x. for_each (\<lambda>y. antenna_step ch timestamps sampling_rate filt x y)
        (List.product [0..<num_tx_antennas (base ch)] [0..<num_rx_antennas (base ch)]))"
    by (intro ext) (simp add: path_step_def)
  show ?thesis
    unfolding eq
    using for_each_product [of "\<lambda>job. antenna_step ch timestamps sampling_rate filt (fst job) (snd job)"
        "List.product [0..<num_tx_antennas (base ch)] [0..<num_rx_antennas (base ch)]" paths state]
    by simp
qed

lemma deposit_jobs_valid:
  assumes "((path_power, path_idx, los_gain, nlos_gain), (rx, tx)) \<in> set (deposit_jobs ch)"
  shows "path_idx < num_resolvable_paths ch" "rx < num_rx_antennas (base ch)"
    "tx < num_tx_antennas (base ch)"
proof -
  from assms have p: "(path_power, path_idx, los_gain, nlos_gain) \<in>
      set (zip (power_profile ch) (zip [0..<num_resolvable_paths ch]
             (zip (los_gains ch) (non_los_gains ch))))"
    and a: "(rx, tx) \<in> set (List.product [0..<num_rx_antennas (base ch)] [0..<num_tx_antennas (base ch)])"
    by (simp_all add: deposit_jobs_def)
  from p have "(path_idx, los_gain, nlos_gain) \<in> set (zip [0..<num_resolvable_paths ch]
             (zip (los_gains ch) (non_los_gains ch)))"
    by (rule set_zip_rightD)
  then have "path_idx \<in> set [0..<num_resolvable_paths ch]" by (rule set_zip_leftD)
  then show "path_idx < num_resolvable_paths ch" by simp
  from a show "rx < num_rx_antennas (base ch)" "tx < num_tx_antennas (base ch)" by simp_all
qed

text \<open>The synthesis of a constructed channel with as many transmit as receive antennas.\<close>

lemma synthesize_nearest:
  assumes init: "init b ds pp rf ns la df ldf ip = Inr ch"
    and sr: "0 < sampling_rate" and nearest: "\<not> impulse_response_interpolation b"
    and sin: "0 < num_sinusoids ch" and ant: "num_tx_antennas b = num_rx_antennas b"
  shows "\<exists>T g'. synthesize drm ch num_samples sampling_rate g = Inr (T, g') \<and>
     dim_samples T = num_samples \<and> dim_rx T = num_rx_antennas b \<and> dim_tx T = num_tx_antennas b \<and>
     dim_taps T = nat (\<lfloor>last (delays ch) * sampling_rate\<rfloor> + 1) \<and>
     length (gain_sequences ch (map (\<lambda>n. real n / sampling_rate) [0..<num_samples])
               (map job_gains (deposit_jobs ch)) g) = length (deposit_jobs ch) \<and>
     (\<forall>k i j d. entry T k i j d =
        sum_list (map (tap_contribution ch sampling_rate num_samples k i j d)
          (zip (deposit_jobs ch)
             (gain_sequences ch (map (\<lambda>n. real n / sampling_rate) [0..<num_samples])
                (map job_gains (deposit_jobs ch)) g))))"
proof -
  note p = init_paths_nonempty [OF init]
  let ?ts = "map (\<lambda>n. real n / sampling_rate) [0..<num_samples]"
  let ?D = "nat (py_int (last (delays ch) * sampling_rate) + 1)"
  let ?Z = "\<lparr> dim_samples = num_samples, dim_rx = num_rx_antennas b, dim_tx = num_tx_antennas b,
               dim_taps = ?D, entry = (\<lambda>k i j c. (0::complex)) \<rparr>"
  let ?paths = "zip (power_profile ch) (zip [0..<num_resolvable_paths ch]
                   (zip (los_gains ch) (non_los_gains ch)))"
  from init_last_delay_nonneg [OF init] sr have nn: "0 \<le> last (delays ch) * sampling_rate" by simp
  then have pi: "py_int (last (delays ch) * sampling_rate) = \<lfloor>last (delays ch) * sampling_rate\<rfloor>"
    by (rule py_int_nonneg)
  from nn have "\<not> py_int (last (delays ch) * sampling_rate) + 1 < 0"
    using py_int_nonneg_ge [OF nn] by simp
  with nearest p(1,8) have "synthesize drm ch num_samples sampling_rate g =
      for_each (path_step ch ?ts sampling_rate None) ?paths (?Z, g)"
    by (simp add: synthesize_def Let_def zeros_def)
  also have "\<dots> = for_each (\<lambda>job. antenna_step ch ?ts sampling_rate None (fst job) (snd job))
      (deposit_jobs ch) (?Z, g)"
    unfolding path_step_flat deposit_jobs_def p(8) ant ..
  finally have syn: "synthesize drm ch num_samples sampling_rate g =
      for_each (\<lambda>job. antenna_step ch ?ts sampling_rate None (fst job) (snd job))
        (deposit_jobs ch) (?Z, g)" .
  have "\<exists>T' g'.
     for_each (\<lambda>job. antenna_step ch ?ts sampling_rate None (fst job) (snd job)) (deposit_jobs ch) (?Z, g)
       = Inr (T', g') \<and>
     dim_samples T' = dim_samples ?Z \<and> dim_rx T' = dim_rx ?Z \<and> dim_tx T' = dim_tx ?Z \<and>
     dim_taps T' = dim_taps ?Z \<and>
     length (gain_sequences ch ?ts (map job_gains (deposit_jobs ch)) g) = length (deposit_jobs ch) \<and>
     (\<forall>k i j d. entry T' k i j d = entry ?Z k i j d +
        sum_list (map (tap_contribution ch sampling_rate (length ?ts) k i j d)
          (zip (deposit_jobs ch) (gain_sequences ch ?ts (map job_gains (deposit_jobs ch)) g))))"
  proof (rule nearest_loop [OF init sr sin])
    show "dim_samples ?Z = length ?ts" by simp
    show "dim_taps ?Z = ?D" by simp
    fix path_power path_idx los_gain nlos_gain rx tx
    assume "((path_power, path_idx, los_gain, nlos_gain), (rx, tx)) \<in> set (deposit_jobs ch)"
    from deposit_jobs_valid [OF this]
    show "path_idx < num_resolvable_paths ch \<and> rx < dim_rx ?Z \<and> tx < dim_tx ?Z"
      by (simp add: p(8))
  qed
  then show ?thesis unfolding syn by (simp add: pi)
qed

text \<open>
  Claim C5. Under the nearest-sample policy, at a positive sampling rate, the impulse
  response of a constructed channel (with at least one sinusoid and as many transmit as
  receive antennas) is the tensor the specification describes: for every path and every
  antenna pair one gain sequence is generated, in loop order on the one random stream,
  and its samples, scaled by the square root of the power of the path and by the
  channel gain, are deposited entirely into the delay tap
  \<open>floor (delay * sampling_rate)\<close> of that antenna pair; a tap that is the floor tap
  of no path stays zero. The policy is in force when the attribute
  \<^verbatim>\<open>impulse_response_interpolation\<close> of the superclass is off, which is what the
  synthesis reads; the constructor argument \<^verbatim>\<open>interpolate_signals\<close> is stored and
  never read, and the statement holds for each of its values.
\<close>

theorem nearest_sample_single_tap:
  assumes "init b ds pp rf ns la df ldf ip = Inr ch"
    and "0 < sampling_rate"
    and "\<not> impulse_response_interpolation b"
    and "0 < num_sinusoids ch"
    and "num_tx_antennas b = num_rx_antennas b"
  shows "\<exists>H g'. impulse_response drm ch num_samples sampling_rate g = Inr (H, g') \<and>
     dim_samples H = num_samples \<and> dim_rx H = num_rx_antennas b \<and> dim_tx H = num_tx_antennas b \<and>
     dim_taps H = nat (\<lfloor>last (delays ch) * sampling_rate\<rfloor> + 1) \<and>
     length (gain_sequences ch (map (\<lambda>n. real n / sampling_rate) [0..<num_samples])
               (map job_gains (deposit_jobs ch)) g) = length (deposit_jobs ch) \<and>
     entry H = nearest_sample_response ch num_samples sampling_rate g \<and>
     (\<forall>k i j d.
        (\<forall>path_idx < num_resolvable_paths ch.
            d \<noteq> nat \<lfloor>delays ch ! path_idx * sampling_rate\<rfloor>) \<longrightarrow>
        entry H k i j d = 0) \<and>
     (\<forall>path_idx < num_resolvable_paths ch.
        nat \<lfloor>delays ch ! path_idx * sampling_rate\<rfloor> < dim_taps H)"
proof -
  let ?ts = "map (\<lambda>n. real n / sampling_rate) [0..<num_samples]"
  let ?seqs = "gain_sequences ch ?ts (map job_gains (deposit_jobs ch)) g"
  from synthesize_nearest [OF assms, of drm num_samples g] obtain T g' where
    syn: "synthesize drm ch num_samples sampling_rate g = Inr (T, g')"
    and d: "dim_samples T = num_samples" "dim_rx T = num_rx_antennas b"
      "dim_tx T = num_tx_antennas b" "dim_taps T = nat (\<lfloor>last (delays ch) * sampling_rate\<rfloor> + 1)"
    and l: "length ?seqs = length (deposit_jobs ch)"
    and e: "\<And>k i j d. entry T k i j d =
        sum_list (map (tap_contribution ch sampling_rate num_samples k i j d)
          (zip (deposit_jobs ch) ?seqs))"
    by blast
  let ?H = "scale_tensor (gain (base ch)) T"
  have ir: "impulse_response drm ch num_samples sampling_rate g = Inr (?H, g')"
    by (simp add: impulse_response_def syn)
  have dH: "dim_samples ?H = num_samples" "dim_rx ?H = num_rx_antennas b"
    "dim_tx ?H = num_tx_antennas b" "dim_taps ?H = nat (\<lfloor>last (delays ch) * sampling_rate\<rfloor> + 1)"
    by (simp_all add: scale_tensor_def d)
  have eH: "entry ?H = nearest_sample_response ch num_samples sampling_rate g"
    by (intro ext) (simp add: scale_tensor_def nearest_sample_response_def e)
  have zero: "entry ?H k i j d = 0"
    if "\<forall>path_idx < num_resolvable_paths ch. d \<noteq> nat \<lfloor>delays ch ! path_idx * sampling_rate\<rfloor>"
    for k i j d
  proof -
    have "sum_list (map (tap_contribution ch sampling_rate num_samples k i j d)
          (zip (deposit_jobs ch) ?seqs)) = 0"
    proof (rule sum_list_all_zero)
      fix jt assume jt: "jt \<in> set (zip (deposit_jobs ch) ?seqs)"
      obtain path_power path_idx los_gain nlos_gain rx tx t where
        j: "jt = (((path_power, path_idx, los_gain, nlos_gain), (rx, tx)), t)"
        by (cases jt) auto
      from jt j have "((path_power, path_idx, los_gain, nlos_gain), (rx, tx)) \<in> set (deposit_jobs ch)"
        by (auto dest: set_zip_leftD)
      from deposit_jobs_valid(1) [OF this] that
      have "d \<noteq> nat \<lfloor>delays ch ! path_idx * sampling_rate\<rfloor>" by blast
      then show "tap_contribution ch sampling_rate num_samples k i j d jt = 0"
        by (simp add: j tap_contribution_def)
    qed
    then show ?thesis by (simp add: scale_tensor_def e)
  qed
  have range: "nat \<lfloor>delays ch ! path_idx * sampling_rate\<rfloor> < dim_taps ?H"
    if "path_idx < num_resolvable_paths ch" for path_idx
  proof -
    note r = delay_index_in_range [OF assms(1) that assms(2)]
    from init_last_delay_nonneg [OF assms(1)] assms(2)
    have "py_int (last (delays ch) * sampling_rate) = \<lfloor>last (delays ch) * sampling_rate\<rfloor>"
      by (intro py_int_nonneg) simp
    with r(2,3) show ?thesis unfolding dH by linarith
  qed
  from ir dH l eH zero range show ?thesis by blast
qed

text \<open>
  Claim C5 on a single path of delay 3/2, power 4 and Rice factor 0 at sampling rate 1:
  the tensor has two taps, tap 0 stays zero, and tap 1 holds twice the gain sequence.
\<close>

theorem nearest_sample_single_tap_witness:
  "\<exists>ch H g' t.
     init test_base [3 / 2] [4] [Fin 0] (Some 8) None (Some 0) None None = Inr ch \<and>
     impulse_response unit_resampler ch 1 1 half_stream = Inr (H, g') \<and>
     dim_taps H = 2 \<and> nat \<lfloor>delays ch ! 0 * 1\<rfloor> = 1 \<and>
     gain_sequences ch [0] [(0, 1)] half_stream = [t] \<and>
     entry H 0 0 0 0 = 0 \<and> entry H 0 0 0 1 = 2 * t ! 0"
proof -
  obtain ch where ch: "init test_base [3 / 2] [4] [Fin 0] (Some 8) None (Some 0) None None = Inr ch"
    and f: "delays ch = [3 / 2]" "num_resolvable_paths ch = 1" "num_sinusoids ch = 8"
      "power_profile ch = [4]" "los_gains ch = [0]" "non_los_gains ch = [1]" "base ch = test_base"
    by (simp add: init_single rice_negative_def los_gain_of_def non_los_gain_of_def)
  have h: "(0::real) < 1" "\<not> impulse_response_interpolation test_base" "0 < num_sinusoids ch"
    "num_tx_antennas test_base = num_rx_antennas test_base"
    by (simp_all add: test_base_def f)
  from tap_succeeds [OF h(3), of "[0]" 0 1 half_stream]
  obtain t g1 where t: "tap ch [0] 0 1 half_stream = Inr (t, g1)" by blast
  have jobs: "deposit_jobs ch = [((4, 0, 0, 1), (0, 0))]"
    by (simp add: deposit_jobs_def f test_base_def)
  have seqs: "gain_sequences ch [0] [(0, 1)] half_stream = [t]" by (simp add: t)
  have fl: "nat \<lfloor>delays ch ! 0 * 1\<rfloor> = 1" by (simp add: f)
  from nearest_sample_single_tap [OF ch h, of unit_resampler 1 half_stream]
  obtain H g' where ir: "impulse_response unit_resampler ch 1 1 half_stream = Inr (H, g')"
    and dt: "dim_taps H = nat (\<lfloor>last (delays ch) * 1\<rfloor> + 1)"
    and e: "entry H = nearest_sample_response ch 1 1 half_stream"
    and z: "\<And>k i j d. (\<forall>path_idx < num_resolvable_paths ch.
            d \<noteq> nat \<lfloor>delays ch ! path_idx * 1\<rfloor>) \<Longrightarrow> entry H k i j d = 0"
    by blast
  from dt have 1: "dim_taps H = 2" by (simp add: f)
  have 2: "entry H 0 0 0 0 = 0" by (rule z) (simp add: f)
  have ts: "map (\<lambda>n. real n / 1) [0..<1] = [0]" by simp
  have jg: "map job_gains [((4, 0, 0, 1), (0, 0))] = [(0, 1)]" by (simp add: job_gains_def)
  have 3: "entry H 0 0 0 1 = 2 * t ! 0"
    unfolding e nearest_sample_response_def jobs ts jg seqs
    by (simp add: tap_contribution_def f test_base_def)
  from ch ir 1 fl seqs 2 3 show ?thesis by blast
qed

subsection \<open>Unequal antenna counts\<close>

lemma for_each_first_fails: "body x s = Inl e \<Longrightarrow> for_each body (x # xs) s = Inl e"
  by simp

lemma for_each_some_invalid:
  assumes "\<exists>x \<in> set xs. \<not> P x" and "I s"
    and valid: "\<And>x s. P x \<Longrightarrow> I s \<Longrightarrow> \<exists>s'. body x s = Inr s' \<and> I s'"
    and invalid: "\<And>x s. \<not> P x \<Longrightarrow> I s \<Longrightarrow> body x s = Inl e"
  shows "for_each body xs s = Inl e"
  using assms(1,2)
proof (induction xs arbitrary: s)
  case Nil
  then show ?case by simp
next
  case (Cons x xs)
  show ?case
  proof (cases "P x")
    case True
    from valid [OF True Cons.prems(2)] obtain s' where s': "body x s = Inr s'" "I s'" by blast
    from Cons.prems(1) True have "\<exists>y \<in> set xs. \<not> P y" by auto
    from Cons.IH [OF this s'(2)] s'(1) show ?thesis by simp
  next
    case False
    from invalid [OF False Cons.prems(2)] show ?thesis by simp
  qed
qed

lemma antenna_step_out_of_range:
  assumes "0 < num_sinusoids ch" and "path_idx < length (delays ch)"
    and "dim_rx T \<le> rx_idx \<or> dim_tx T \<le> tx_idx"
  shows "antenna_step ch timestamps sampling_rate None (path_power, path_idx, los_gain, nlos_gain)
           (rx_idx, tx_idx) (T, g) = Inl IndexError"
proof -
  from tap_succeeds [OF assms(1), of timestamps los_gain nlos_gain g]
  obtain t g' where "tap ch timestamps los_gain nlos_gain g = Inr (t, g')" by blast
  with assms(2,3) show ?thesis
    by (simp add: antenna_step_def deposit_def add_tap_column_antenna_out_of_range)
qed

lemma unequal_antennas_index_error:
  assumes init: "init b ds pp rf ns la df ldf ip = Inr ch"
    and sr: "0 < sampling_rate"
    and nearest: "\<not> impulse_response_interpolation b"
    and sin: "0 < num_sinusoids ch"
    and ant: "num_tx_antennas b \<noteq> num_rx_antennas b" "0 < num_tx_antennas b" "0 < num_rx_antennas b"
  shows "synthesize drm ch num_samples sampling_rate g = Inl IndexError"
proof -
  note p = init_paths_nonempty [OF init]
  let ?ts = "map (\<lambda>n. real n / sampling_rate) [0..<num_samples]"
  let ?D = "nat (py_int (last (delays ch) * sampling_rate) + 1)"
  let ?Z = "\<lparr> dim_samples = num_samples, dim_rx = num_rx_antennas b, dim_tx = num_tx_antennas b,
               dim_taps = ?D, entry = (\<lambda>k i j c. (0::complex)) \<rparr>"
  let ?paths = "zip (power_profile ch) (zip [0..<num_resolvable_paths ch]
                   (zip (los_gains ch) (non_los_gains ch)))"
  define I where "I = (\<lambda>s :: tensor \<times> rng. dim_samples (fst s) = num_samples \<and>
     dim_rx (fst s) = num_rx_antennas b \<and> dim_tx (fst s) = num_tx_antennas b \<and>
     dim_taps (fst s) = ?D)"
  define P where "P = (\<lambda>pair :: nat \<times> nat. fst pair < num_rx_antennas b \<and> snd pair < num_tx_antennas b)"
  from init_last_delay_nonneg [OF init] sr
  have "0 \<le> py_int (last (delays ch) * sampling_rate)" by (intro py_int_nonneg_ge) simp
  then have "\<not> py_int (last (delays ch) * sampling_rate) + 1 < 0" by simp
  with nearest p(1,8) have syn: "synthesize drm ch num_samples sampling_rate g =
      for_each (path_step ch ?ts sampling_rate None) ?paths (?Z, g)"
    by (simp add: synthesize_def Let_def zeros_def)
  from p have "?paths \<noteq> []"
    by (cases "power_profile ch"; cases "los_gains ch"; cases "non_los_gains ch";
        cases "num_resolvable_paths ch") (simp_all add: upt_conv_Cons)
  then obtain x xs where xs: "?paths = x # xs" by (cases ?paths) simp_all
  obtain path_power path_idx los_gain nlos_gain where x: "x = (path_power, path_idx, los_gain, nlos_gain)"
    by (cases x) auto
  have "x \<in> set ?paths" by (simp add: xs)
  then have "(path_idx, los_gain, nlos_gain) \<in> set (zip [0..<num_resolvable_paths ch]
                   (zip (los_gains ch) (non_los_gains ch)))"
    unfolding x by (rule set_zip_rightD)
  then have "path_idx \<in> set [0..<num_resolvable_paths ch]"
    by (rule set_zip_leftD)
  then have pi: "path_idx < num_resolvable_paths ch" by simp
  with p(7) have pl: "path_idx < length (delays ch)" by simp
  have bad: "\<exists>pair \<in> set (List.product [0..<num_tx_antennas b] [0..<num_rx_antennas b]). \<not> P pair"
  proof (cases "num_rx_antennas b < num_tx_antennas b")
    case True
    with ant have "(num_rx_antennas b, 0) \<in> set (List.product [0..<num_tx_antennas b] [0..<num_rx_antennas b])"
      by simp
    moreover have "\<not> P (num_rx_antennas b, 0)" by (simp add: P_def)
    ultimately show ?thesis by blast
  next
    case False
    with ant have "(0, num_tx_antennas b) \<in> set (List.product [0..<num_tx_antennas b] [0..<num_rx_antennas b])"
      by simp
    moreover have "\<not> P (0, num_tx_antennas b)" by (simp add: P_def)
    ultimately show ?thesis by blast
  qed
  have I0: "I (?Z, g)" by (simp add: I_def)
  have valid: "\<exists>s'. antenna_step ch ?ts sampling_rate None x pair s = Inr s' \<and> I s'"
    if "P pair" "I s" for pair s
  proof -
    obtain rx_idx tx_idx where pair: "pair = (rx_idx, tx_idx)" by (cases pair) auto
    obtain T g0 where s: "s = (T, g0)" by (cases s) auto
    from that(2) s have sh: "dim_samples T = length ?ts" "dim_taps T = ?D"
      "dim_rx T = num_rx_antennas b" "dim_tx T = num_tx_antennas b"
      by (simp_all add: I_def)
    from that(1) pair sh have a: "rx_idx < dim_rx T" "tx_idx < dim_tx T" by (simp_all add: P_def)
    from tap_succeeds [OF sin, of ?ts los_gain nlos_gain g0]
    obtain t g' where t: "tap ch ?ts los_gain nlos_gain g0 = Inr (t, g')" by blast
    from antenna_step_nearest(1) [OF init sr pi sh(1,2) a t, of path_power] sh
    show ?thesis unfolding x pair s by (simp add: I_def)
  qed
  have invalid: "antenna_step ch ?ts sampling_rate None x pair s = Inl IndexError"
    if "\<not> P pair" "I s" for pair s
  proof -
    obtain rx_idx tx_idx where pair: "pair = (rx_idx, tx_idx)" by (cases pair) auto
    obtain T g0 where s: "s = (T, g0)" by (cases s) auto
    from that pair s have "dim_rx T \<le> rx_idx \<or> dim_tx T \<le> tx_idx"
      by (auto simp: I_def P_def)
    from antenna_step_out_of_range [OF sin pl this] show ?thesis unfolding x pair s .
  qed
  have "path_step ch ?ts sampling_rate None x (?Z, g) = Inl IndexError"
    unfolding path_step_def p(8)
    by (rule for_each_some_invalid [where P = P and I = I, OF bad I0 valid invalid])
  then show ?thesis unfolding syn xs by (rule for_each_first_fails)
qed

text \<open>
  Claim C3 asks for a tensor of shape \<open>[num_samples, num_rx, num_tx, max_delay + 1]\<close>
  with one gain sequence per path and antenna pair, also for unequal antenna counts.
  Line 371 runs \<^verbatim>\<open>rx_idx\<close> over the transmit antennas and \<^verbatim>\<open>tx_idx\<close> over the
  receive antennas: for a constructed channel with unequal, positive antenna counts
  (nearest-sample policy, at least one sinusoid, positive sampling rate) the synthesis
  indexes the tensor out of range and raises \<^verbatim>\<open>IndexError\<close>.
\<close>

theorem unequal_antennas_raise:
  assumes "init b ds pp rf ns la df ldf ip = Inr ch"
    and "0 < sampling_rate"
    and "\<not> impulse_response_interpolation b"
    and "0 < num_sinusoids ch"
    and "num_tx_antennas b \<noteq> num_rx_antennas b"
    and "0 < num_tx_antennas b" and "0 < num_rx_antennas b"
  shows "impulse_response drm ch num_samples sampling_rate g = Inl IndexError"
  using unequal_antennas_index_error [OF assms] by (simp add: impulse_response_def)

text \<open>Claim C3 with two transmit antennas and one receive antenna.\<close>

theorem unequal_antennas_raise_witness:
  "\<exists>ch. init (test_base\<lparr>num_tx_antennas := 2\<rparr>) [0] [1] [Fin 0] (Some 8) None (Some 0) None None
          = Inr ch \<and>
        impulse_response unit_resampler ch 1 1 half_stream = Inl IndexError"
proof -
  let ?b = "test_base\<lparr>num_tx_antennas := 2\<rparr>"
  obtain ch where ch: "init ?b [0] [1] [Fin 0] (Some 8) None (Some 0) None None = Inr ch"
    and n: "num_sinusoids ch = 8"
    by (simp add: init_single rice_negative_def)
  have 1: "(0::real) < 1" by simp
  have 2: "\<not> impulse_response_interpolation ?b" by (simp add: test_base_def)
  have 3: "0 < num_sinusoids ch" by (simp add: n)
  have 4: "num_tx_antennas ?b \<noteq> num_rx_antennas ?b" "0 < num_tx_antennas ?b"
    "0 < num_rx_antennas ?b" by (simp_all add: test_base_def)
  from unequal_antennas_raise [OF ch 1 2 3 4, of unit_resampler 1 half_stream] ch
  show ?thesis by blast
qed

subsection \<open>The scalar gain\<close>

lemma nlos_term_base: "nlos_term (ch\<lparr>base := b'\<rparr>) = nlos_term ch"
  by (intro ext) (simp add: nlos_term_def)

lemma tap_base: "tap (ch\<lparr>base := b'\<rparr>) = tap ch"
  by (intro ext) (simp add: tap_def nlos_term_base los_doppler_frequency_def Let_def split_beta
        cong: option.case_cong)

lemma deposit_base: "deposit (ch\<lparr>base := b'\<rparr>) = deposit ch"
  by (intro ext) (simp add: deposit_def split: option.splits)

lemma antenna_step_base: "antenna_step (ch\<lparr>base := b'\<rparr>) = antenna_step ch"
  unfolding antenna_step_def tap_base deposit_base by (rule refl)

lemma path_step_gain: "path_step (ch\<lparr>base := (base ch)\<lparr>gain := a\<rparr>\<rparr>) = path_step ch"
  unfolding path_step_def antenna_step_base by simp

lemma interpolation_filter_base: "interpolation_filter drm (ch\<lparr>base := b'\<rparr>) = interpolation_filter drm ch"
  by (intro ext) (simp add: interpolation_filter_def Let_def)

lemma synthesize_gain:
  "synthesize drm (ch\<lparr>base := (base ch)\<lparr>gain := a\<rparr>\<rparr>) = synthesize drm ch"
  by (intro ext)
     (simp add: synthesize_def path_step_gain interpolation_filter_base Let_def
        cong: sum.case_cong)

lemma scale_tensor_one: "scale_tensor 1 H = H"
  by (simp add: scale_tensor_def)

lemma impulse_response_gain:
  "impulse_response drm (ch\<lparr>base := (base ch)\<lparr>gain := a\<rparr>\<rparr>) num_samples sampling_rate g =
     map_sum id (\<lambda>(H, g'). (scale_tensor a H, g')) (synthesize drm ch num_samples sampling_rate g)"
  by (simp add: impulse_response_def synthesize_gain split: sum.splits)

lemma correlate_gain: "correlate (b\<lparr>gain := a\<rparr>) H = correlate b H"
  by (simp add: correlate_def cong: if_cong)

lemma sum_list_scale:
  "sum_list (map (\<lambda>i. a * f i) xs) = a * sum_list (map f xs)" for a :: complex
  by (induction xs) (simp_all add: algebra_simps)

lemma sum_list_scale_mid:
  "sum_list (map (\<lambda>i. u i * (a * f i) * v i) xs) = a * sum_list (map (\<lambda>i. u i * f i * v i) xs)"
  for a :: complex
  by (induction xs) (simp_all add: algebra_simps)

lemma correlate_scale:
  "correlate b (scale_tensor a H) = map_sum id (scale_tensor a) (correlate b H)"
proof (cases "matrix_fits (receive_postcoding b) (dim_rx H) \<and> matrix_fits (transmit_precoding b) (dim_tx H)")
  case True
  define F1 where "F1 = (\<lambda>k r t d. if r < dim_rx H \<and> t < dim_tx H
          then sum_list (map (\<lambda>r'. sum_list (map (\<lambda>t'.
                 matrix_entry (receive_postcoding b) r r' * (complex_of_real a * entry H k r' t' d) *
                 matrix_entry (transmit_precoding b) t t') [0..<dim_tx H])) [0..<dim_rx H])
          else complex_of_real a * entry H k r t d)"
  define F2 where "F2 = (\<lambda>k r t d. if r < dim_rx H \<and> t < dim_tx H
          then sum_list (map (\<lambda>r'. sum_list (map (\<lambda>t'.
                 matrix_entry (receive_postcoding b) r r' * entry H k r' t' d *
                 matrix_entry (transmit_precoding b) t t') [0..<dim_tx H])) [0..<dim_rx H])
          else entry H k r t d)"
  have eq: "F1 = (\<lambda>k r t d. complex_of_real a * F2 k r t d)"
    unfolding F1_def F2_def by (intro ext) (simp add: sum_list_scale_mid sum_list_scale)
  have L: "correlate b (scale_tensor a H) = Inr (H\<lparr>entry := F1\<rparr>)"
    using True unfolding F1_def by (simp add: correlate_def scale_tensor_def cong: if_cong)
  have R: "correlate b H = Inr (H\<lparr>entry := F2\<rparr>)"
    using True unfolding F2_def by (simp add: correlate_def cong: if_cong)
  show ?thesis unfolding L R eq by (simp add: scale_tensor_def)
next
  case False
  then show ?thesis by (auto simp: correlate_def scale_tensor_def)
qed

lemma convolve_scale:
  "convolve (scale_tensor a H) x n = scale_signal a (convolve H x n)"
proof -
  have "(\<Sum>d\<leftarrow>ds. if d \<le> m \<and> m - d < n
            then entry (scale_tensor a H) (m - d) r t d * x ! t ! (m - d) else 0)
      = complex_of_real a * (\<Sum>d\<leftarrow>ds. if d \<le> m \<and> m - d < n
            then entry H (m - d) r t d * x ! t ! (m - d) else 0)" for ds m r t
    by (induction ds) (simp_all add: scale_tensor_def algebra_simps)
  then show ?thesis
    by (simp add: convolve_def scale_signal_def sum_list_scale) (simp add: scale_tensor_def)
qed

text \<open>
  Claim C4. On one random stream, a channel with gain \<open>a\<close> produces \<open>a\<close> times what the
  same channel with gain 1 produces, for the impulse response and for the propagated
  signal (and the channel state returned with it); an error of the one is the same
  error of the other, and both leave the stream in the same state.
\<close>

theorem gain_scales_outputs:
  "impulse_response drm (ch\<lparr>base := (base ch)\<lparr>gain := a\<rparr>\<rparr>) num_samples sampling_rate g =
     map_sum id (\<lambda>(H, g'). (scale_tensor a H, g'))
       (impulse_response drm (ch\<lparr>base := (base ch)\<lparr>gain := 1\<rparr>\<rparr>) num_samples sampling_rate g) \<and>
   propagate drm (ch\<lparr>base := (base ch)\<lparr>gain := a\<rparr>\<rparr>) x sampling_rate g =
     map_sum id (\<lambda>(y, H, g'). (scale_signal a y, scale_tensor a H, g'))
       (propagate drm (ch\<lparr>base := (base ch)\<lparr>gain := 1\<rparr>\<rparr>) x sampling_rate g)"
proof
  let ?n = "case x of [] \<Rightarrow> 0 | s # _ \<Rightarrow> length s"
  show "impulse_response drm (ch\<lparr>base := (base ch)\<lparr>gain := a\<rparr>\<rparr>) num_samples sampling_rate g =
     map_sum id (\<lambda>(H, g'). (scale_tensor a H, g'))
       (impulse_response drm (ch\<lparr>base := (base ch)\<lparr>gain := 1\<rparr>\<rparr>) num_samples sampling_rate g)"
    unfolding impulse_response_gain
    by (cases "synthesize drm ch num_samples sampling_rate g") (auto simp: scale_tensor_one)
  show "propagate drm (ch\<lparr>base := (base ch)\<lparr>gain := a\<rparr>\<rparr>) x sampling_rate g =
     map_sum id (\<lambda>(y, H, g'). (scale_signal a y, scale_tensor a H, g'))
       (propagate drm (ch\<lparr>base := (base ch)\<lparr>gain := 1\<rparr>\<rparr>) x sampling_rate g)"
  proof (cases "synthesize drm ch ?n sampling_rate g")
    case (Inl e)
    then show ?thesis by (simp add: propagate_def impulse_response_gain Let_def)
  next
    case (Inr r)
    obtain H g' where r: "r = (H, g')" by (cases r) auto
    show ?thesis
    proof (cases "correlate (base ch) H")
      case (Inl e)
      with Inr r show ?thesis
        by (simp add: propagate_def impulse_response_gain Let_def correlate_gain correlate_scale
              scale_tensor_one)
    next
      case (Inr H')
      with \<open>synthesize drm ch ?n sampling_rate g = Inr r\<close> r show ?thesis
        by (simp add: propagate_def impulse_response_gain Let_def correlate_gain correlate_scale
              scale_tensor_one convolve_scale)
    qed
  qed
qed

subsection \<open>The line-of-sight channel\<close>

lemma add_seq_zeros: "add_seq xs (replicate (length xs) 0) = xs"
  by (induction xs) (simp_all add: add_seq_def)

text \<open>The tap of a pure line-of-sight path: a unit phasor whose phase comes from the stream.\<close>

lemma tap_los_only:
  assumes "0 < num_sinusoids ch"
  shows "\<exists>g'. tap ch timestamps 1 0 g =
           Inr (map (\<lambda>t. exp (\<i> * complex_of_real
                   (los_doppler_frequency ch * t *
                      cos (case los_angle ch of Some a \<Rightarrow> a
                           | None \<Rightarrow> 2 * pi * g (2 * nat (num_sinusoids ch)))
                    + 2 * pi * g (case los_angle ch of Some a \<Rightarrow> 2 * nat (num_sinusoids ch)
                                  | None \<Rightarrow> Suc (2 * nat (num_sinusoids ch))))))
                 timestamps, g')"
proof -
  from tap_result [OF assms, of timestamps 0 g 1]
  obtain nlos_component los_ang los_phase g' where
    z: "nlos_component = replicate (length timestamps) 0"
    and l: "(los_ang, los_phase, g') =
             (let g2 = (\<lambda>i. g (i + nat (num_sinusoids ch) + nat (num_sinusoids ch)))
              in case los_angle ch of
                   Some a \<Rightarrow> (a, 2 * pi * g2 0, \<lambda>i. g2 (Suc i))
                 | None \<Rightarrow> (2 * pi * g2 0, 2 * pi * g2 1, \<lambda>i. g2 (Suc (Suc i))))"
    and t: "tap ch timestamps 1 0 g =
             Inr (add_seq
                   (map (\<lambda>t. complex_of_real 1 *
                          exp (\<i> * complex_of_real
                            (los_doppler_frequency ch * t * cos los_ang + los_phase)))
                        timestamps)
                   nlos_component, g')"
    by blast
  have "add_seq (map (\<lambda>t. complex_of_real 1 *
                          exp (\<i> * complex_of_real
                            (los_doppler_frequency ch * t * cos los_ang + los_phase)))
                        timestamps) nlos_component
        = map (\<lambda>t. exp (\<i> * complex_of_real
                            (los_doppler_frequency ch * t * cos los_ang + los_phase))) timestamps"
    using add_seq_zeros [of "map (\<lambda>t. exp (\<i> * complex_of_real
                            (los_doppler_frequency ch * t * cos los_ang + los_phase))) timestamps"]
    by (simp add: z)
  with t have t': "tap ch timestamps 1 0 g =
       Inr (map (\<lambda>t. exp (\<i> * complex_of_real
                            (los_doppler_frequency ch * t * cos los_ang + los_phase))) timestamps, g')"
    by simp
  from l have "los_ang = (case los_angle ch of Some a \<Rightarrow> a
                           | None \<Rightarrow> 2 * pi * g (2 * nat (num_sinusoids ch)))"
    and "los_phase = 2 * pi * g (case los_angle ch of Some a \<Rightarrow> 2 * nat (num_sinusoids ch)
                                  | None \<Rightarrow> Suc (2 * nat (num_sinusoids ch)))"
    by (simp_all add: Let_def mult_2 [of "nat (num_sinusoids ch)"] split: option.splits)
  with t' show ?thesis by blast
qed

text \<open>
  The filter of a single path of delay 0 when the resampling matrix is a positive
  \<open>1 \<times> 1\<close> matrix: the single weight 1.
\<close>

lemma interpolation_filter_zero_delay:
  assumes "delays ch = [0]" and "0 < c" and "drm sampling_rate 1 0 1 = [[c]]"
  shows "interpolation_filter drm ch sampling_rate = Inr [[1]]"
proof -
  from assms(2) have "c / sqrt (c * c) = 1" by simp
  moreover from assms(3) have "drm sampling_rate (Suc 0) 0 1 = [[c]]" by simp
  ultimately have "filter_row drm sampling_rate 1 0 = Inr [1]"
    by (simp add: filter_row_def frobenius_def Let_def)
  then show ?thesis
    by (simp add: interpolation_filter_def assms(1) py_int_def)
qed

lemma add_outer_unit_row:
  assumes "rx_idx < dim_rx T" "tx_idx < dim_tx T" "length w = dim_samples T" "dim_taps T = 1"
  shows "add_outer T rx_idx tx_idx w [1] =
    Inr (T\<lparr>entry := (\<lambda>k i j d.
           if k < dim_samples T \<and> i = rx_idx \<and> j = tx_idx \<and> d = 0
           then entry T k i j d + w ! k else entry T k i j d)\<rparr>)"
proof -
  have "(\<lambda>k i j d. if k < dim_samples T \<and> i = rx_idx \<and> j = tx_idx \<and> d < dim_taps T
             then entry T k i j d + w ! k * complex_of_real ([1] ! d) else entry T k i j d) =
        (\<lambda>k i j d. if k < dim_samples T \<and> i = rx_idx \<and> j = tx_idx \<and> d = 0
           then entry T k i j d + w ! k else entry T k i j d)"
    by (intro ext) (auto simp: assms(4))
  with assms show ?thesis by (simp add: add_outer_def)
qed

text \<open>
  The phase by which the line-of-sight channel turns the input sample \<open>n\<close>, as a
  function of the random stream, under either policy.
\<close>

lemma los_siso_propagate:
  assumes init: "init b [0] [p] [PosInf] ns la df ldf ip = Inr ch"
    and b: "gain b = 1" "num_tx_antennas b = 1" "num_rx_antennas b = 1"
      "transmit_precoding b = None" "receive_postcoding b = None"
    and filt: "impulse_response_interpolation b \<longrightarrow> (\<exists>c>0. drm sampling_rate 1 0 1 = [[c]])"
    and sin: "0 < num_sinusoids ch" and sr: "0 < sampling_rate"
  shows "\<exists>H g'. propagate drm ch [x] sampling_rate g =
     Inr ([map (\<lambda>n. complex_of_real (sqrt p) * exp (\<i> * complex_of_real
                   (los_doppler_frequency ch * (real n / sampling_rate) *
                      cos (case los_angle ch of Some a \<Rightarrow> a
                           | None \<Rightarrow> 2 * pi * g (2 * nat (num_sinusoids ch)))
                    + 2 * pi * g (case los_angle ch of Some a \<Rightarrow> 2 * nat (num_sinusoids ch)
                                  | None \<Rightarrow> Suc (2 * nat (num_sinusoids ch))))) * x ! n)
            [0..<length x]], H, g')"
proof -
  let ?N = "length x"
  let ?ts = "map (\<lambda>n. real n / sampling_rate) [0..<?N]"
  define phase where "phase = (\<lambda>t. los_doppler_frequency ch * t *
                      cos (case los_angle ch of Some a \<Rightarrow> a
                           | None \<Rightarrow> 2 * pi * g (2 * nat (num_sinusoids ch)))
                    + 2 * pi * g (case los_angle ch of Some a \<Rightarrow> 2 * nat (num_sinusoids ch)
                                  | None \<Rightarrow> Suc (2 * nat (num_sinusoids ch))))"
  let ?t = "map (\<lambda>t. exp (\<i> * complex_of_real (phase t))) ?ts"
  let ?w = "map (\<lambda>z. complex_of_real (sqrt p) * z) ?t"
  let ?Z = "\<lparr> dim_samples = ?N, dim_rx = 1, dim_tx = 1, dim_taps = 1,
               entry = (\<lambda>k i j c. (0::complex)) \<rparr>"
  let ?H = "?Z\<lparr>entry := (\<lambda>k i j d. if k < ?N \<and> i = 0 \<and> j = 0 \<and> d = 0
                                then complex_of_real (sqrt p) * ?t ! k else 0)\<rparr>"
  from init have ch: "base ch = b" "delays ch = [0]" "power_profile ch = [p]"
    "num_resolvable_paths ch = 1" "los_gains ch = [1]" "non_los_gains ch = [0]"
    by (auto simp: init_single rice_negative_def los_gain_of_def non_los_gain_of_def
          split: if_splits)
  from tap_los_only [OF sin, of ?ts g] obtain g' where
    tap: "tap ch ?ts 1 0 g = Inr (?t, g')" unfolding phase_def by blast
  have p: "0 < num_resolvable_paths ch" by (simp add: ch)
  have nearest: "antenna_step ch ?ts sampling_rate None (p, 0, 1, 0) (0, 0) (?Z, g) = Inr (?H, g')"
  proof -
    have "antenna_step ch ?ts sampling_rate None (p, 0, 1, 0) (0, 0) (?Z, g) =
         Inr (?Z\<lparr>entry := (\<lambda>k i j d.
                if k < dim_samples ?Z \<and> i = 0 \<and> j = 0 \<and>
                   d = nat \<lfloor>delays ch ! 0 * sampling_rate\<rfloor>
                then entry ?Z k i j d + complex_of_real (sqrt p) * ?t ! k
                else entry ?Z k i j d)\<rparr>, g')"
      by (rule antenna_step_nearest(1) [OF init sr p _ _ _ _ tap])
         (simp_all add: ch py_int_def)
    also have "(\<lambda>k i j d.
                if k < dim_samples ?Z \<and> i = 0 \<and> j = 0 \<and>
                   d = nat \<lfloor>delays ch ! 0 * sampling_rate\<rfloor>
                then entry ?Z k i j d + complex_of_real (sqrt p) * ?t ! k
                else entry ?Z k i j d) =
          (\<lambda>k i j d. if k < ?N \<and> i = 0 \<and> j = 0 \<and> d = 0
                      then complex_of_real (sqrt p) * ?t ! k else 0)"
      by (intro ext) (simp add: ch)
    finally show ?thesis .
  qed
  have interpolated: "antenna_step ch ?ts sampling_rate (Some [[1]]) (p, 0, 1, 0) (0, 0) (?Z, g)
      = Inr (?H, g')"
  proof -
    have "add_outer ?Z 0 0 ?w [1] =
      Inr (?Z\<lparr>entry := (\<lambda>k i j d.
           if k < dim_samples ?Z \<and> i = 0 \<and> j = 0 \<and> d = 0
           then entry ?Z k i j d + ?w ! k else entry ?Z k i j d)\<rparr>)"
      by (rule add_outer_unit_row) simp_all
    also have "(\<lambda>k i j d.
           if k < dim_samples ?Z \<and> i = 0 \<and> j = 0 \<and> d = 0
           then entry ?Z k i j d + ?w ! k else entry ?Z k i j d) =
          (\<lambda>k i j d. if k < ?N \<and> i = 0 \<and> j = 0 \<and> d = 0
                      then complex_of_real (sqrt p) * ?t ! k else 0)"
      by (intro ext) simp
    finally have "deposit ch sampling_rate (Some [[1]]) 0 0 0 ?w ?Z = Inr ?H"
      by (simp add: deposit_def)
    then show ?thesis by (simp add: antenna_step_def tap)
  qed
  have syn: "synthesize drm ch ?N sampling_rate g = Inr (?H, g')"
  proof (cases "impulse_response_interpolation b")
    case False
    with nearest show ?thesis
      by (simp add: synthesize_def Let_def ch b zeros_def py_int_def path_step_def)
  next
    case True
    with filt obtain c where "0 < c" "drm sampling_rate 1 0 1 = [[c]]" by blast
    from interpolation_filter_zero_delay [where drm = drm and sampling_rate = sampling_rate,
        OF ch(2) this]
    have "interpolation_filter drm ch sampling_rate = Inr [[1]]" .
    with True interpolated show ?thesis
      by (simp add: synthesize_def Let_def ch b zeros_def py_int_def path_step_def)
  qed
  have ir: "impulse_response drm ch ?N sampling_rate g = Inr (?H, g')"
    unfolding impulse_response_def syn by (simp only: ch b scale_tensor_one sum.case prod.case)
  define H where "H = ?H"
  have dims: "dim_samples H = ?N" "dim_rx H = 1" "dim_tx H = 1" "dim_taps H = 1"
    by (simp_all add: H_def)
  have ent: "entry H k i j d =
      (if k < ?N \<and> i = 0 \<and> j = 0 \<and> d = 0
       then complex_of_real (sqrt p) * exp (\<i> * complex_of_real (phase (real k / sampling_rate)))
       else 0)" for k i j d
    by (simp add: H_def)
  have "(\<lambda>k r t d. if r < dim_rx H \<and> t < dim_tx H
            then sum_list (map (\<lambda>r'. sum_list (map (\<lambda>t'.
                   matrix_entry (receive_postcoding b) r r' * entry H k r' t' d *
                   matrix_entry (transmit_precoding b) t t') [0..<dim_tx H])) [0..<dim_rx H])
            else entry H k r t d) = entry H"
    by (intro ext) (simp add: dims b matrix_entry_def)
  then have "correlate b H = Inr (H\<lparr>entry := entry H\<rparr>)"
    by (simp add: correlate_def b matrix_fits_def)
  then have cor: "correlate b H = Inr H" by simp
  have "convolve H [x] ?N = [map (\<lambda>m. entry H m 0 0 0 * x ! m) [0..<?N]]"
    by (simp add: convolve_def dims cong: map_cong)
  also have "map (\<lambda>m. entry H m 0 0 0 * x ! m) [0..<?N] =
      map (\<lambda>n. complex_of_real (sqrt p) *
                 exp (\<i> * complex_of_real (phase (real n / sampling_rate))) * x ! n) [0..<?N]"
    by (rule map_cong) (simp_all add: ent)
  finally have conv: "convolve H [x] ?N =
      [map (\<lambda>n. complex_of_real (sqrt p) *
                  exp (\<i> * complex_of_real (phase (real n / sampling_rate))) * x ! n) [0..<?N]]" .
  have "propagate drm ch [x] sampling_rate g = Inr (convolve H [x] ?N, H, g')"
    using ir cor unfolding H_def [symmetric] by (simp add: propagate_def ch b)
  then show ?thesis unfolding conv phase_def by blast
qed

lemma init_los_channel:
  "init test_base [0] [1] [PosInf] None None None None None = Inr los_channel"
  by (simp add: init_single rice_negative_def los_gain_of_def non_los_gain_of_def los_channel_def)

lemma test_base_fields:
  "gain test_base = 1" "num_tx_antennas test_base = 1" "num_rx_antennas test_base = 1"
  "transmit_precoding test_base = None" "receive_postcoding test_base = None"
  "\<not> impulse_response_interpolation test_base"
  by (simp_all add: test_base_def)

lemma los_channel_fields:
  "0 < num_sinusoids los_channel" "los_angle los_channel = None"
  "los_doppler_frequency los_channel = 0" "nat (num_sinusoids los_channel) = 20"
  by (simp_all add: los_channel_def los_doppler_frequency_def)

text \<open>
  Claim C2 says that the channel with one path of delay 0, Rice factor infinity and
  gain 1 reproduces its input exactly, whatever the state of the random stream. On
  the stream that always delivers one half the line-of-sight phase is \<open>pi\<close> and the input
  sample 1 comes out as \<open>- 1\<close>; on the stream that always delivers zero it comes out as 1.
\<close>

theorem los_channel_identity_counterexample:
  "init test_base [0] [1] [PosInf] None None None None None = Inr los_channel \<and>
   map_sum id fst (propagate unit_resampler los_channel [[1]] 1 half_stream) = Inr [[- 1]] \<and>
   map_sum id fst (propagate unit_resampler los_channel [[1]] 1 zero_stream) = Inr [[1]]"
proof (intro conjI)
  show i: "init test_base [0] [1] [PosInf] None None None None None = Inr los_channel"
    by (rule init_los_channel)
  have sr: "(0::real) < 1" by simp
  have f: "impulse_response_interpolation test_base \<longrightarrow>
      (\<exists>c>0. unit_resampler 1 1 0 1 = [[c]])"
    by (simp add: test_base_fields)
  note l = los_siso_propagate [where drm = unit_resampler and sampling_rate = 1 and x = "[1]",
      OF i test_base_fields(1-5) f los_channel_fields(1) sr]
  from l [of half_stream]
  show "map_sum id fst (propagate unit_resampler los_channel [[1]] 1 half_stream) = Inr [[- 1]]"
    by (auto simp: los_channel_fields half_stream_def exp_pi_i')
  from l [of zero_stream]
  show "map_sum id fst (propagate unit_resampler los_channel [[1]] 1 zero_stream) = Inr [[1]]"
    by (auto simp: los_channel_fields zero_stream_def)
qed

text \<open>
  Claim C2, amended. For a channel with one path of delay 0, power \<open>p\<close> and Rice factor
  infinity, gain 1, one antenna on each side, no correlation matrices, at least one
  sinusoid and a positive sampling rate, under the nearest-sample policy and, where the
  resampling matrix for delay 0 is a positive \<open>1 \<times> 1\<close> matrix, under the interpolated
  policy, \<open>propagate\<close> returns a signal of the length of the input whose sample \<open>n\<close> is
  the input sample \<open>n\<close> times \<open>sqrt p\<close> times a unit phasor. The magnitude of each sample
  is \<open>sqrt p\<close> times that of the input sample (the same for power 1); its phase is turned
  by \<open>los_doppler \<cdot> n / sampling_rate \<cdot> cos los_angle + los_phase\<close>, where the phase
  (and the angle, unless one is configured) is \<open>2 \<cdot> pi\<close> times the number the random
  stream delivers next after the numbers drawn for the sinusoids.
\<close>

theorem los_channel_rotates_phase:
  assumes "init b [0] [p] [PosInf] ns la df ldf ip = Inr ch"
    and "gain b = 1" and "num_tx_antennas b = 1" and "num_rx_antennas b = 1"
    and "transmit_precoding b = None" and "receive_postcoding b = None"
    and "impulse_response_interpolation b \<longrightarrow> (\<exists>c>0. drm sampling_rate 1 0 1 = [[c]])"
    and "0 < num_sinusoids ch" and "0 < sampling_rate"
  shows "\<exists>y H g'. propagate drm ch [x] sampling_rate g = Inr ([y], H, g') \<and>
     length y = length x \<and>
     (\<forall>n < length x.
        y ! n = complex_of_real (sqrt p) * exp (\<i> * complex_of_real
                   (los_doppler_frequency ch * (real n / sampling_rate) *
                      cos (case los_angle ch of Some a \<Rightarrow> a
                           | None \<Rightarrow> 2 * pi * g (2 * nat (num_sinusoids ch)))
                    + 2 * pi * g (case los_angle ch of Some a \<Rightarrow> 2 * nat (num_sinusoids ch)
                                  | None \<Rightarrow> Suc (2 * nat (num_sinusoids ch))))) * x ! n \<and>
        cmod (y ! n) = sqrt p * cmod (x ! n))"
proof -
  from assms(1) have "0 \<le> p" by (auto simp: init_single split: if_splits)
  then have sp: "\<bar>sqrt p\<bar> = sqrt p" by simp
  from los_siso_propagate [where drm = drm and sampling_rate = sampling_rate and x = x and g = g,
      OF assms] obtain H g' where
    p: "propagate drm ch [x] sampling_rate g =
     Inr ([map (\<lambda>n. complex_of_real (sqrt p) * exp (\<i> * complex_of_real
                   (los_doppler_frequency ch * (real n / sampling_rate) *
                      cos (case los_angle ch of Some a \<Rightarrow> a
                           | None \<Rightarrow> 2 * pi * g (2 * nat (num_sinusoids ch)))
                    + 2 * pi * g (case los_angle ch of Some a \<Rightarrow> 2 * nat (num_sinusoids ch)
                                  | None \<Rightarrow> Suc (2 * nat (num_sinusoids ch))))) * x ! n)
            [0..<length x]], H, g')"
    by blast
  show ?thesis
    by (intro exI conjI, rule p) (simp_all add: norm_mult sp)
qed

text \<open>
  Claim C2, amended, under the interpolated policy: the line-of-sight channel of the
  unit tests with power 4 and interpolation on, the resampler returning the matrix
  \<open>[[1]]\<close>.
\<close>

theorem los_channel_rotates_phase_witness:
  "\<exists>ch y H g'.
     init (test_base\<lparr>impulse_response_interpolation := True\<rparr>) [0] [4] [PosInf]
       None None None None None = Inr ch \<and>
     propagate unit_resampler ch [[1]] 1 half_stream = Inr ([y], H, g') \<and>
     length y = 1 \<and> y ! 0 = - 2 \<and> cmod (y ! 0) = 2"
proof -
  let ?b = "test_base\<lparr>impulse_response_interpolation := True\<rparr>"
  obtain ch where ch: "init ?b [0] [4] [PosInf] None None None None None = Inr ch"
    and f: "num_sinusoids ch = 20" "los_angle ch = None" "los_doppler_frequency ch = 0"
    by (simp add: init_single rice_negative_def los_doppler_frequency_def)
  have b: "gain ?b = 1" "num_tx_antennas ?b = 1" "num_rx_antennas ?b = 1"
    "transmit_precoding ?b = None" "receive_postcoding ?b = None"
    by (simp_all add: test_base_def)
  have r: "impulse_response_interpolation ?b \<longrightarrow> (\<exists>c>0. unit_resampler 1 1 0 1 = [[c]])"
    by (simp add: unit_resampler_def)
  have s: "0 < num_sinusoids ch" "(0::real) < 1" by (simp_all add: f)
  from los_channel_rotates_phase [where drm = unit_resampler and sampling_rate = 1
      and x = "[1]" and g = half_stream, OF ch b r s]
  obtain y H g' where p: "propagate unit_resampler ch [[1]] 1 half_stream = Inr ([y], H, g')"
    and l: "length y = length [1::complex]"
    and v: "\<forall>n < length [1::complex].
        y ! n = complex_of_real (sqrt 4) * exp (\<i> * complex_of_real
                   (los_doppler_frequency ch * (real n / 1) *
                      cos (case los_angle ch of Some a \<Rightarrow> a
                           | None \<Rightarrow> 2 * pi * half_stream (2 * nat (num_sinusoids ch)))
                    + 2 * pi * half_stream (case los_angle ch of Some a \<Rightarrow> 2 * nat (num_sinusoids ch)
                                  | None \<Rightarrow> Suc (2 * nat (num_sinusoids ch))))) * [1] ! n \<and>
        cmod (y ! n) = sqrt 4 * cmod ([1::complex] ! n)"
    by blast
  have s4: "sqrt 4 = 2" using real_sqrt_abs [of 2] by simp
  from v have "y ! 0 = - 2" "cmod (y ! 0) = 2"
    by (simp_all add: f half_stream_def exp_pi_i' s4)
  with ch p l show ?thesis by (intro exI [of _ ch] exI [of _ y] exI [of _ H] exI [of _ g']) simp
qed

end
